theory Spec2Isabelle
  imports Complex_Main
begin

section \<open>Python values, errors and tables\<close>

text \<open>
  The analysis tool works on pandas tables whose cells are user, finger and sample
  numbers (Python integers) or strings (the decision and the group labels).
\<close>

datatype cell = IntCell int | StrCell string

text \<open>The exceptions the modelled code can raise.\<close>

datatype error = KeyError | ValueError | AssertionError | IndexError

text \<open>
  A \<^verbatim>\<open>pd.DataFrame\<close>: the ordered column names, and the rows in order. A row gives
  the cell of every column name; what it gives for a name that is not a column of the
  table is never read, since every access checks the name first.
\<close>

record 'a DataFrame =
  columns :: "string list"
  rows :: "(string \<Rightarrow> 'a) list"

text \<open>\<^verbatim>\<open>table[cols]\<close>: the columns \<open>cols\<close> in that order; KeyError on an unknown name.\<close>

definition getitem_cols :: "'a DataFrame \<Rightarrow> string list \<Rightarrow> error + 'a DataFrame" where
  "getitem_cols table cols =
     (if list_all (\<lambda>c. c \<in> set (columns table)) cols
      then Inr \<lparr>columns = cols, rows = rows table\<rparr>
      else Inl KeyError)"

text \<open>\<^verbatim>\<open>np.array(table)\<close>: one array per row, the cells in column order.\<close>

definition np_array :: "'a DataFrame \<Rightarrow> 'a list list" where
  "np_array table = map (\<lambda>r. map r (columns table)) (rows table)"

text \<open>\<^verbatim>\<open>fpsutils.has_columns(table, cols)\<close>.\<close>

definition has_columns :: "'a DataFrame \<Rightarrow> string list \<Rightarrow> bool" where
  "has_columns table cols = list_all (\<lambda>c. c \<in> set (columns table)) cols"

section \<open>The membership index (ResultsEval.py, DataFrameSetAccess)\<close>

text \<open>
  \<^verbatim>\<open>
  def __init__(self, table, cols=None):
      if not cols:
          cols = table.columns
      self.set = {tuple(row) for row in np.array(table[cols])}
  def isin(self, values):
      return values in self.set
  \<close>
  A Python tuple of any width is a list here. \<^verbatim>\<open>not cols\<close> holds for \<^verbatim>\<open>None\<close> and
  for the empty list alike.
\<close>

record 'a DataFrameSetAccess =
  set_m :: "'a list set"

definition DataFrameSetAccess_init ::
    "'a DataFrame \<Rightarrow> string list option \<Rightarrow> error + 'a DataFrameSetAccess" where
  "DataFrameSetAccess_init table cols =
     (let cols1 = (case cols of None \<Rightarrow> columns table
                   | Some cs \<Rightarrow> if cs = [] then columns table else cs)
      in case getitem_cols table cols1 of
           Inl e \<Rightarrow> Inl e
         | Inr sub \<Rightarrow> Inr \<lparr>set_m = set (np_array sub)\<rparr>)"

definition isin :: "'a DataFrameSetAccess \<Rightarrow> 'a list \<Rightarrow> bool" where
  "isin self values = (values \<in> set_m self)"

text \<open>
  What the specification calls the table projected onto a column list, and the domain
  of a column: the values the column takes in the table.
\<close>

definition projected_rows :: "'a DataFrame \<Rightarrow> string list \<Rightarrow> 'a list list" where
  "projected_rows table cols = map (\<lambda>r. map r cols) (rows table)"

definition column_domain :: "'a DataFrame \<Rightarrow> string \<Rightarrow> 'a set" where
  "column_domain table c = (\<lambda>r. r c) ` set (rows table)"

text \<open>Rows of example tables are written as updates of the blank row.\<close>

definition blank :: "string \<Rightarrow> cell" where
  "blank c = StrCell []"

definition one_cell_table :: "cell DataFrame" where
  "one_cell_table = \<lparr>columns = [''VerifyUser''], rows = [blank(''VerifyUser'' := IntCell 10001)]\<rparr>"

section \<open>Bootstrap results (bootstrap.py, BootstrapResults)\<close>

record BootstrapResults =
  p_samples :: "int list"

definition BootstrapResults_init :: "int list \<Rightarrow> BootstrapResults" where
  "BootstrapResults_init bootstrap_samples = \<lparr>p_samples = bootstrap_samples\<rparr>"

definition samples :: "BootstrapResults \<Rightarrow> int list" where
  "samples self = p_samples self"

definition num_samples :: "BootstrapResults \<Rightarrow> nat" where
  "num_samples self = length (p_samples self)"

text \<open>
  \<^verbatim>\<open>np.percentile(a, q)\<close> with numpy's default method (linear interpolation between
  the two closest ranks of the sorted sample), in exact rational arithmetic; numpy does
  the same computation in double precision. The virtual index of level \<open>q\<close> in a sample
  of \<open>n\<close> values is \<open>(n - 1) * q / 100\<close>.
\<close>

definition virtual_index :: "nat \<Rightarrow> rat \<Rightarrow> rat" where
  "virtual_index n q = of_nat (n - 1) * q / 100"

definition percentile_linear :: "int list \<Rightarrow> rat \<Rightarrow> rat" where
  "percentile_linear a q =
     (let s = sort a;
          n = length s;
          vi = virtual_index n q;
          lo = nat \<lfloor>vi\<rfloor>;
          hi = min (lo + 1) (n - 1);
          gamma = vi - of_int \<lfloor>vi\<rfloor>
      in of_int (s ! lo) + gamma * (of_int (s ! hi) - of_int (s ! lo)))"

text \<open>
  numpy checks the levels first (\<^verbatim>\<open>Percentiles must be in the range [0, 100]\<close>, a
  ValueError). An empty sample has no percentile: numpy gives no number for it (an
  IndexError, or NaN in older releases); the model returns IndexError.
\<close>

definition np_percentile :: "int list \<Rightarrow> rat list \<Rightarrow> error + rat list" where
  "np_percentile a qs =
     (if \<not> list_all (\<lambda>q. 0 \<le> q \<and> q \<le> 100) qs then Inl ValueError
      else if a = [] then Inl IndexError
      else Inr (map (percentile_linear a) qs))"

text \<open>
  \<^verbatim>\<open>
  def confidence_interval(self, confidence_percent=95):
      ci_percent_lower = (100 - confidence_percent) / 2
      ci_percent_upper = 100 - ci_percent_lower
      boot_limits = np.percentile(self._samples, [ci_percent_lower, ci_percent_upper])
      return boot_limits
  \<close>
  The method is a transformer of the object: it returns the limits and the object as it
  leaves it. \<^verbatim>\<open>np.percentile\<close> works on a copy of the list.
\<close>

definition confidence_interval ::
    "BootstrapResults \<Rightarrow> int \<Rightarrow> (error + rat list) \<times> BootstrapResults" where
  "confidence_interval self confidence_percent =
     (let ci_percent_lower = (100 - of_int confidence_percent) / 2;
          ci_percent_upper = 100 - ci_percent_lower;
          boot_limits = np_percentile (p_samples self) [ci_percent_lower, ci_percent_upper]
      in (boot_limits, self))"

text \<open>Calling \<^verbatim>\<open>confidence_interval\<close> once for each percent of a list, in order.\<close>

fun confidence_interval_calls :: "BootstrapResults \<Rightarrow> int list \<Rightarrow> BootstrapResults" where
  "confidence_interval_calls self [] = self"
| "confidence_interval_calls self (p # ps) =
     confidence_interval_calls (snd (confidence_interval self p)) ps"

section \<open>The random source and resampling\<close>

text \<open>
  A \<^verbatim>\<open>np.random.Generator\<close> is deterministic once created: it is the sequence of raw
  numbers it will give, and how many of them have been taken. Nothing is assumed about
  the sequence, so every run of draws is covered.
\<close>

record rng =
  outputs :: "nat \<Rightarrow> nat"
  pos :: nat

text \<open>The next \<open>n\<close> positions in a population of size \<open>n\<close>, and the generator afterwards.\<close>

definition drawn_indices :: "rng \<Rightarrow> nat \<Rightarrow> nat list" where
  "drawn_indices g n = map (\<lambda>i. outputs g (pos g + i) mod n) [0..<n]"

definition advance :: "rng \<Rightarrow> nat \<Rightarrow> rng" where
  "advance g n = g\<lparr>pos := pos g + n\<rparr>"

text \<open>
  Modelled from the spec: \<^verbatim>\<open>fpsutils.boot_sample(a, rng=rng)\<close>, whose file is not part of
  the sources. The specification has it draw K values with repetition allowed from a
  list of size K; the model takes each value at the next drawn position and leaves the
  generator advanced by K draws.
\<close>

definition boot_sample :: "'a list \<Rightarrow> rng \<Rightarrow> 'a list \<times> rng" where
  "boot_sample a g = (map (\<lambda>i. a ! i) (drawn_indices g (length a)), advance g (length a))"

text \<open>\<^verbatim>\<open>np.sum\<close> of a list of booleans: how many are true.\<close>

definition np_sum :: "bool list \<Rightarrow> int" where
  "np_sum sample = int (length (filter (\<lambda>b. b) sample))"

section \<open>The experiment (experiment.py is not part of the sources)\<close>

text \<open>
  The names of the columns and of the decisions, as the test file's CSV headers and
  tables show them.
\<close>

datatype TableCol =
  Enroll_User | Enroll_Finger | Verify_User | Verify_Finger | Verify_Sample | Decision
  | Enroll_Group | Verify_Group

fun TableCol_value :: "TableCol \<Rightarrow> string" where
  "TableCol_value Enroll_User = ''EnrollUser''"
| "TableCol_value Enroll_Finger = ''EnrollFinger''"
| "TableCol_value Verify_User = ''VerifyUser''"
| "TableCol_value Verify_Finger = ''VerifyFinger''"
| "TableCol_value Verify_Sample = ''VerifySample''"
| "TableCol_value Decision = ''Decision''"
| "TableCol_value Enroll_Group = ''EnrollGroup''"
| "TableCol_value Verify_Group = ''VerifyGroup''"

datatype Decision_enum = Accept | Reject

fun Decision_value :: "Decision_enum \<Rightarrow> string" where
  "Decision_value Accept = ''ACCEPT''"
| "Decision_value Reject = ''REJECT''"

text \<open>
  What the strategies read from an \<^verbatim>\<open>Experiment\<close>: the results of its accessors
  \<^verbatim>\<open>far_decisions()\<close>, \<^verbatim>\<open>fa_table()\<close>, \<^verbatim>\<open>fr_table()\<close>, \<^verbatim>\<open>user_list()\<close>,
  \<^verbatim>\<open>finger_list()\<close> and \<^verbatim>\<open>sample_list()\<close>, taken as given.
\<close>

record Experiment =
  far_decisions :: "cell DataFrame"
  fa_table :: "cell DataFrame"
  fr_table :: "cell DataFrame"
  user_list :: "cell list"
  finger_list :: "cell list"
  sample_list :: "cell list"

section \<open>The prefix-count index\<close>

text \<open>
  Modelled from the spec: \<^verbatim>\<open>fpsutils.DataFrameCountTrieAccess\<close>, whose file is not part
  of the sources. It is built from a table and an ordered column list; the count of a
  partial tuple is the number of rows whose leading columns match it, and \<^verbatim>\<open>isin\<close>
  holds when that count is not zero.
\<close>

record 'a DataFrameCountTrieAccess =
  counted_rows :: "'a list list"

definition DataFrameCountTrieAccess_init ::
    "'a DataFrame \<Rightarrow> string list \<Rightarrow> error + 'a DataFrameCountTrieAccess" where
  "DataFrameCountTrieAccess_init table cols =
     (case getitem_cols table cols of
        Inl e \<Rightarrow> Inl e
      | Inr sub \<Rightarrow> Inr \<lparr>counted_rows = np_array sub\<rparr>)"

definition trie_counts :: "'a DataFrameCountTrieAccess \<Rightarrow> 'a list \<Rightarrow> nat" where
  "trie_counts self values =
     length (filter (\<lambda>r. take (length values) r = values) (counted_rows self))"

definition trie_isin :: "'a DataFrameCountTrieAccess \<Rightarrow> 'a list \<Rightarrow> bool" where
  "trie_isin self values = (trie_counts self values \<noteq> 0)"

section \<open>The bootstrap strategies (bootstrap.py)\<close>

subsection \<open>BootstrapFARFlat\<close>

text \<open>
  \<^verbatim>\<open>
  def _init(self, exp):
      far = exp.far_decisions()
      assert fpsutils.has_columns(far, [Experiment.TableCol.Decision])
      self.far_list = np.array(far[Decision.value] == Experiment.Decision.Accept.value, dtype=bool)
  def _sample(self, rng):
      sample = fpsutils.boot_sample(self.far_list, rng=rng)
      return np.sum(sample)
  \<close>
  A \<^verbatim>\<open>_sample\<close> method is a transformer of the generator and of the object: it returns
  the count, the generator after the draws, and the object as it leaves it.
\<close>

record FARFlat =
  far_list :: "bool list"

definition FARFlat_init :: "Experiment \<Rightarrow> error + FARFlat" where
  "FARFlat_init exper =
     (let far = far_decisions exper
      in if \<not> has_columns far [TableCol_value Decision] then Inl AssertionError
         else Inr \<lparr>far_list =
                map (\<lambda>r. r (TableCol_value Decision) = StrCell (Decision_value Accept)) (rows far)\<rparr>)"

definition FARFlat_sample :: "FARFlat \<Rightarrow> rng \<Rightarrow> int \<times> rng \<times> FARFlat" where
  "FARFlat_sample self g =
     (let (sample, g1) = boot_sample (far_list self) g
      in (np_sum sample, g1, self))"

subsection \<open>BootstrapFullFARHierarchy and BootstrapFullFRRHierarchy\<close>

text \<open>
  Both classes keep the same five attributes. The membership index
  \<^verbatim>\<open>fpsutils.DataFrameSetAccess\<close> is the class of that name in ResultsEval.py.
\<close>

record Hierarchy =
  fa_set :: "cell DataFrameSetAccess"
  fa_trie :: "cell DataFrameCountTrieAccess"
  users_list :: "cell list"
  fingers_list :: "cell list"
  samples_list :: "cell list"

definition fa_set_tuple :: "string list" where
  "fa_set_tuple =
     [TableCol_value Verify_User, TableCol_value Enroll_User, TableCol_value Verify_Finger,
      TableCol_value Enroll_Finger, TableCol_value Verify_Sample]"

definition FullFARHierarchy_init :: "Experiment \<Rightarrow> error + Hierarchy" where
  "FullFARHierarchy_init exper =
     (let table = fa_table exper
      in if \<not> has_columns table fa_set_tuple then Inl AssertionError
         else case DataFrameSetAccess_init table (Some fa_set_tuple) of
                Inl e \<Rightarrow> Inl e
              | Inr s \<Rightarrow>
                  (case DataFrameCountTrieAccess_init table fa_set_tuple of
                     Inl e \<Rightarrow> Inl e
                   | Inr t \<Rightarrow>
                       Inr \<lparr>fa_set = s, fa_trie = t, users_list = user_list exper,
                            fingers_list = finger_list exper, samples_list = sample_list exper\<rparr>))"

text \<open>
  \<^verbatim>\<open>_sample\<close> of the full FAR hierarchy: five nested \<^verbatim>\<open>for\<close> loops, innermost first.
  Each loop runs over the list drawn for it; the state it threads is the generator and
  the list \<^verbatim>\<open>sample\<close> of query results. The locals \<^verbatim>\<open>user_list\<close>, \<^verbatim>\<open>fingers_list\<close>,
  \<^verbatim>\<open>samples_list\<close>, \<^verbatim>\<open>fa_set\<close> and \<^verbatim>\<open>fa_trie\<close>, bound once from the object at the top,
  are the fields of \<open>c\<close>.
  \<^verbatim>\<open>
  for a in fpsutils.boot_sample(samples_list, rng=rng):
      query = (v, t, fv, ft, a)
      sample.append(fa_set.isin(query))
  \<close>
\<close>

fun far_for_a ::
    "Hierarchy \<Rightarrow> cell \<Rightarrow> cell \<Rightarrow> cell \<Rightarrow> cell \<Rightarrow> cell list \<Rightarrow> bool list \<Rightarrow> bool list" where
  "far_for_a c v t fv ft [] sample = sample"
| "far_for_a c v t fv ft (a # rest) sample =
     far_for_a c v t fv ft rest (sample @ [isin (fa_set c) [v, t, fv, ft, a]])"

text \<open>
  \<^verbatim>\<open>
  for ft in fpsutils.boot_sample(mod_finger_list, rng=rng):
      if not fa_trie.isin((v, t, fv, ft)):
          continue
      for a in ...
  \<close>
\<close>

fun far_for_ft ::
    "Hierarchy \<Rightarrow> cell \<Rightarrow> cell \<Rightarrow> cell \<Rightarrow> cell list \<Rightarrow> rng \<times> bool list \<Rightarrow> rng \<times> bool list" where
  "far_for_ft c v t fv [] st = st"
| "far_for_ft c v t fv (ft # rest) (g, sample) =
     (if \<not> trie_isin (fa_trie c) [v, t, fv, ft] then far_for_ft c v t fv rest (g, sample)
      else let (drawn, g1) = boot_sample (samples_list c) g
           in far_for_ft c v t fv rest (g1, far_for_a c v t fv ft drawn sample))"

text \<open>
  \<^verbatim>\<open>
  for fv in fpsutils.boot_sample(fingers_list, rng=rng):
      if not fa_trie.isin((v, t, fv)):
          continue
      mod_finger_list = fingers_list
      for ft in ...
  \<close>
\<close>

fun far_for_fv ::
    "Hierarchy \<Rightarrow> cell \<Rightarrow> cell \<Rightarrow> cell list \<Rightarrow> rng \<times> bool list \<Rightarrow> rng \<times> bool list" where
  "far_for_fv c v t [] st = st"
| "far_for_fv c v t (fv # rest) (g, sample) =
     (if \<not> trie_isin (fa_trie c) [v, t, fv] then far_for_fv c v t rest (g, sample)
      else let mod_finger_list = fingers_list c;
               (drawn, g1) = boot_sample mod_finger_list g
           in far_for_fv c v t rest (far_for_ft c v t fv drawn (g1, sample)))"

text \<open>
  \<^verbatim>\<open>
  for t in fpsutils.boot_sample(user_list, rng=rng):
      if not fa_trie.isin((v, t)):
          continue
      for fv in ...
  \<close>
\<close>

fun far_for_t ::
    "Hierarchy \<Rightarrow> cell \<Rightarrow> cell list \<Rightarrow> rng \<times> bool list \<Rightarrow> rng \<times> bool list" where
  "far_for_t c v [] st = st"
| "far_for_t c v (t # rest) (g, sample) =
     (if \<not> trie_isin (fa_trie c) [v, t] then far_for_t c v rest (g, sample)
      else let (drawn, g1) = boot_sample (fingers_list c) g
           in far_for_t c v rest (far_for_fv c v t drawn (g1, sample)))"

text \<open>
  \<^verbatim>\<open>
  for v in fpsutils.boot_sample(user_list, rng=rng):
      if not fa_trie.isin((v,)):
          continue
      for t in ...
  \<close>
\<close>

fun far_for_v :: "Hierarchy \<Rightarrow> cell list \<Rightarrow> rng \<times> bool list \<Rightarrow> rng \<times> bool list" where
  "far_for_v c [] st = st"
| "far_for_v c (v # rest) (g, sample) =
     (if \<not> trie_isin (fa_trie c) [v] then far_for_v c rest (g, sample)
      else let (drawn, g1) = boot_sample (users_list c) g
           in far_for_v c rest (far_for_t c v drawn (g1, sample)))"

definition FullFARHierarchy_sample :: "Hierarchy \<Rightarrow> rng \<Rightarrow> int \<times> rng \<times> Hierarchy" where
  "FullFARHierarchy_sample self g =
     (let (drawn, g1) = boot_sample (users_list self) g;
          (g2, sample) = far_for_v self drawn (g1, [])
      in (np_sum sample, g2, self))"

text \<open>
  \<^verbatim>\<open>_sample\<close> of the full FRR hierarchy: three nested loops over user, finger and
  sample, with the index built over the columns EnrollUser, EnrollFinger, VerifySample
  of \<^verbatim>\<open>exp.fr_table()\<close>.
\<close>

definition fr_set_tuple :: "string list" where
  "fr_set_tuple =
     [TableCol_value Enroll_User, TableCol_value Enroll_Finger, TableCol_value Verify_Sample]"

definition FullFRRHierarchy_init :: "Experiment \<Rightarrow> error + Hierarchy" where
  "FullFRRHierarchy_init exper =
     (let table = fr_table exper
      in if \<not> has_columns table fr_set_tuple then Inl AssertionError
         else case DataFrameSetAccess_init table (Some fr_set_tuple) of
                Inl e \<Rightarrow> Inl e
              | Inr s \<Rightarrow>
                  (case DataFrameCountTrieAccess_init table fr_set_tuple of
                     Inl e \<Rightarrow> Inl e
                   | Inr t \<Rightarrow>
                       Inr \<lparr>fa_set = s, fa_trie = t, users_list = user_list exper,
                            fingers_list = finger_list exper, samples_list = sample_list exper\<rparr>))"

fun frr_for_s :: "Hierarchy \<Rightarrow> cell \<Rightarrow> cell \<Rightarrow> cell list \<Rightarrow> bool list \<Rightarrow> bool list" where
  "frr_for_s c u f [] sample = sample"
| "frr_for_s c u f (s # rest) sample =
     frr_for_s c u f rest (sample @ [isin (fa_set c) [u, f, s]])"

fun frr_for_f ::
    "Hierarchy \<Rightarrow> cell \<Rightarrow> cell list \<Rightarrow> rng \<times> bool list \<Rightarrow> rng \<times> bool list" where
  "frr_for_f c u [] st = st"
| "frr_for_f c u (f # rest) (g, sample) =
     (if \<not> trie_isin (fa_trie c) [u, f] then frr_for_f c u rest (g, sample)
      else let (drawn, g1) = boot_sample (samples_list c) g
           in frr_for_f c u rest (g1, frr_for_s c u f drawn sample))"

fun frr_for_u :: "Hierarchy \<Rightarrow> cell list \<Rightarrow> rng \<times> bool list \<Rightarrow> rng \<times> bool list" where
  "frr_for_u c [] st = st"
| "frr_for_u c (u # rest) (g, sample) =
     (if \<not> trie_isin (fa_trie c) [u] then frr_for_u c rest (g, sample)
      else let (drawn, g1) = boot_sample (fingers_list c) g
           in frr_for_u c rest (frr_for_f c u drawn (g1, sample)))"

definition FullFRRHierarchy_sample :: "Hierarchy \<Rightarrow> rng \<Rightarrow> int \<times> rng \<times> Hierarchy" where
  "FullFRRHierarchy_sample self g =
     (let (drawn, g1) = boot_sample (users_list self) g;
          (g2, sample) = frr_for_u self drawn (g1, [])
      in (np_sum sample, g2, self))"

text \<open>A sequence of \<^verbatim>\<open>_sample\<close> calls on one object, each with the generator given for it.\<close>

fun sample_calls :: "('c \<Rightarrow> rng \<Rightarrow> int \<times> rng \<times> 'c) \<Rightarrow> 'c \<Rightarrow> rng list \<Rightarrow> int list \<times> 'c" where
  "sample_calls smp self [] = ([], self)"
| "sample_calls smp self (g # gs) =
     (case smp self g of
        (n, g1, self1) \<Rightarrow> (case sample_calls smp self1 gs of (ns, self2) \<Rightarrow> (n # ns, self2)))"

subsection \<open>The hierarchical bootstrap as the specification words it\<close>

text \<open>
  One candidate \<open>x\<close> at a level, with the tuple \<open>prefix\<close> drawn above it and the axis
  lists of the levels below it. At the deepest level the tuple is complete and is
  recorded. Above it, the partial tuple is looked up in the prefix index: with no row
  of that prefix the candidate is skipped and nothing is drawn; otherwise a full-size
  resample of the next axis is drawn and each of its values is a candidate one level
  down. The state is the generator and the complete tuples drawn so far.
\<close>

primrec descend ::
    "(cell list \<Rightarrow> bool) \<Rightarrow> cell list list \<Rightarrow> cell list \<Rightarrow> cell \<Rightarrow>
     rng \<times> cell list list \<Rightarrow> rng \<times> cell list list" where
  "descend has_prefix [] prefix x st = (fst st, snd st @ [prefix @ [x]])"
| "descend has_prefix (axis # deeper) prefix x st =
     (if \<not> has_prefix (prefix @ [x]) then st
      else fold (descend has_prefix deeper (prefix @ [x])) (fst (boot_sample axis (fst st)))
             (snd (boot_sample axis (fst st)), snd st))"

text \<open>
  The five levels of the full FAR hierarchy, in the order verify user, template user,
  verify finger, enroll finger, verify sample: the generator after the replicate and
  the 5-tuples drawn in the iterations that pass every prefix check.
\<close>

definition far_hierarchy_draws :: "Hierarchy \<Rightarrow> rng \<Rightarrow> rng \<times> cell list list" where
  "far_hierarchy_draws c g =
     fold (descend (trie_isin (fa_trie c))
             [users_list c, fingers_list c, fingers_list c, samples_list c] [])
          (fst (boot_sample (users_list c) g))
          (snd (boot_sample (users_list c) g), [])"

text \<open>
  The tuples the descent can record below \<open>prefix\<close>: one value from each axis in
  order, every partial tuple above the deepest level having a row of that prefix.
\<close>

fun admissible :: "(cell list \<Rightarrow> bool) \<Rightarrow> cell list list \<Rightarrow> cell list \<Rightarrow> cell list \<Rightarrow> bool" where
  "admissible has_prefix [] prefix s = (s = [])"
| "admissible has_prefix [axis] prefix s = (length s = 1 \<and> hd s \<in> set axis)"
| "admissible has_prefix (axis # b # axes) prefix [] = False"
| "admissible has_prefix (axis # b # axes) prefix (x # s) =
     (x \<in> set axis \<and> has_prefix (prefix @ [x]) \<and> admissible has_prefix (b # axes) (prefix @ [x]) s)"

subsection \<open>The sampler that leaves self-matches unqueried\<close>

text \<open>
  The full FAR hierarchy with one change: at depth 5 a tuple whose verify user is its
  template user is counted as absent without asking the membership index.
\<close>

fun skip_for_a ::
    "Hierarchy \<Rightarrow> cell \<Rightarrow> cell \<Rightarrow> cell \<Rightarrow> cell \<Rightarrow> cell list \<Rightarrow> bool list \<Rightarrow> bool list" where
  "skip_for_a c v t fv ft [] sample = sample"
| "skip_for_a c v t fv ft (a # rest) sample =
     skip_for_a c v t fv ft rest
       (sample @ [if v = t then False else isin (fa_set c) [v, t, fv, ft, a]])"

fun skip_for_ft ::
    "Hierarchy \<Rightarrow> cell \<Rightarrow> cell \<Rightarrow> cell \<Rightarrow> cell list \<Rightarrow> rng \<times> bool list \<Rightarrow> rng \<times> bool list" where
  "skip_for_ft c v t fv [] st = st"
| "skip_for_ft c v t fv (ft # rest) (g, sample) =
     (if \<not> trie_isin (fa_trie c) [v, t, fv, ft] then skip_for_ft c v t fv rest (g, sample)
      else let (drawn, g1) = boot_sample (samples_list c) g
           in skip_for_ft c v t fv rest (g1, skip_for_a c v t fv ft drawn sample))"

fun skip_for_fv ::
    "Hierarchy \<Rightarrow> cell \<Rightarrow> cell \<Rightarrow> cell list \<Rightarrow> rng \<times> bool list \<Rightarrow> rng \<times> bool list" where
  "skip_for_fv c v t [] st = st"
| "skip_for_fv c v t (fv # rest) (g, sample) =
     (if \<not> trie_isin (fa_trie c) [v, t, fv] then skip_for_fv c v t rest (g, sample)
      else let (drawn, g1) = boot_sample (fingers_list c) g
           in skip_for_fv c v t rest (skip_for_ft c v t fv drawn (g1, sample)))"

fun skip_for_t ::
    "Hierarchy \<Rightarrow> cell \<Rightarrow> cell list \<Rightarrow> rng \<times> bool list \<Rightarrow> rng \<times> bool list" where
  "skip_for_t c v [] st = st"
| "skip_for_t c v (t # rest) (g, sample) =
     (if \<not> trie_isin (fa_trie c) [v, t] then skip_for_t c v rest (g, sample)
      else let (drawn, g1) = boot_sample (fingers_list c) g
           in skip_for_t c v rest (skip_for_fv c v t drawn (g1, sample)))"

fun skip_for_v :: "Hierarchy \<Rightarrow> cell list \<Rightarrow> rng \<times> bool list \<Rightarrow> rng \<times> bool list" where
  "skip_for_v c [] st = st"
| "skip_for_v c (v # rest) (g, sample) =
     (if \<not> trie_isin (fa_trie c) [v] then skip_for_v c rest (g, sample)
      else let (drawn, g1) = boot_sample (users_list c) g
           in skip_for_v c rest (skip_for_t c v drawn (g1, sample)))"

definition skip_self_match_sample :: "Hierarchy \<Rightarrow> rng \<Rightarrow> int \<times> rng \<times> Hierarchy" where
  "skip_self_match_sample self g =
     (let (drawn, g1) = boot_sample (users_list self) g;
          (g2, sample) = skip_for_v self drawn (g1, [])
      in (np_sum sample, g2, self))"

section \<open>The runner (bootstrap.py, Bootstrap)\<close>

text \<open>
  What a run reads from outside the program: the clock behind \<^verbatim>\<open>time.time()\<close>, as the
  sequence of its readings and how many were taken; the generators that
  \<^verbatim>\<open>np.random.default_rng()\<close> creates from fresh entropy, in order of creation; the
  processor count; and, for a pool whose workers keep state, which worker takes which
  replicate.
\<close>

record world =
  clock :: "nat \<Rightarrow> real"
  ticks :: nat
  entropy :: "nat \<Rightarrow> rng"
  created :: nat
  cpu_count :: nat
  worker_of :: "nat \<Rightarrow> nat"

definition time_time :: "world \<Rightarrow> real \<times> world" where
  "time_time w = (clock w (ticks w), w\<lparr>ticks := Suc (ticks w)\<rparr>)"

definition default_rng :: "world \<Rightarrow> rng \<times> world" where
  "default_rng w = (entropy w (created w), w\<lparr>created := Suc (created w)\<rparr>)"

text \<open>
  A \<^verbatim>\<open>Bootstrap\<close> object: the attributes its class's \<^verbatim>\<open>_init\<close> stored (the cache), the
  class's \<^verbatim>\<open>_sample\<close> and \<^verbatim>\<open>USE_GLOBAL_SHARING\<close>, and the attributes of the base class.
\<close>

record 'c Bootstrap =
  cache :: 'c
  p_sample :: "'c \<Rightarrow> rng \<Rightarrow> int \<times> rng \<times> 'c"
  USE_GLOBAL_SHARING :: bool
  p_verbose :: bool
  time_init_start :: real
  time_init_end :: real
  time_rng_start :: real
  time_rng_end :: real
  time_pool_startup_start :: real
  time_pool_startup_end :: real
  time_samples_start :: real
  time_samples_end :: real

text \<open>
  \<^verbatim>\<open>
  def __init__(self, exp, verbose=False):
      self._verbose = verbose
      self._time_init_start = time.time()
      self._init(exp)
      self._time_init_end = time.time()
      self._time_rng_start = 0.0
      ... (the five other times likewise)
  \<close>
  The first three arguments stand for the class: its \<^verbatim>\<open>_init\<close>, its \<^verbatim>\<open>_sample\<close> and its
  \<^verbatim>\<open>USE_GLOBAL_SHARING\<close>. Printing is left out throughout.
\<close>

definition Bootstrap_init ::
    "(Experiment \<Rightarrow> error + 'c) \<Rightarrow> ('c \<Rightarrow> rng \<Rightarrow> int \<times> rng \<times> 'c) \<Rightarrow> bool \<Rightarrow>
     Experiment \<Rightarrow> bool \<Rightarrow> world \<Rightarrow> (error + 'c Bootstrap) \<times> world" where
  "Bootstrap_init init_m sample_m sharing exper verbose w =
     (let (t0, w1) = time_time w
      in case init_m exper of
           Inl e \<Rightarrow> (Inl e, w1)
         | Inr c \<Rightarrow>
             (let (t1, w2) = time_time w1
              in (Inr \<lparr>cache = c, p_sample = sample_m, USE_GLOBAL_SHARING = sharing,
                       p_verbose = verbose, time_init_start = t0, time_init_end = t1,
                       time_rng_start = 0, time_rng_end = 0,
                       time_pool_startup_start = 0, time_pool_startup_end = 0,
                       time_samples_start = 0, time_samples_end = 0\<rparr>, w2)))"

text \<open>The base class: \<^verbatim>\<open>_init\<close> stores nothing, \<^verbatim>\<open>_sample\<close> returns 0, no global sharing.\<close>

definition Bootstrap_base_init :: "Experiment \<Rightarrow> error + unit" where
  "Bootstrap_base_init exper = Inr ()"

definition Bootstrap_base_sample :: "unit \<Rightarrow> rng \<Rightarrow> int \<times> rng \<times> unit" where
  "Bootstrap_base_sample self g = (0, g, self)"

text \<open>
  \<^verbatim>\<open>
  for _ in progress(range(num_samples), num_samples):
      boot_counts.append(self._sample(rng))
  \<close>
  The \<^verbatim>\<open>progress\<close> callback is taken to hand the items of its iterable on in order, as
  the default \<^verbatim>\<open>iter(it)\<close> does.
\<close>

fun single_loop ::
    "('c \<Rightarrow> rng \<Rightarrow> int \<times> rng \<times> 'c) \<Rightarrow> nat \<Rightarrow> 'c \<times> rng \<times> int list \<Rightarrow> 'c \<times> rng \<times> int list" where
  "single_loop smp 0 st = st"
| "single_loop smp (Suc k) (c, g, boot_counts) =
     (case smp c g of (n, g1, c1) \<Rightarrow> single_loop smp k (c1, g1, boot_counts @ [n]))"

text \<open>
  \<^verbatim>\<open>
  def __run_single_process(self, num_samples, progress):
      boot_counts = list()
      self._time_rng_start = time.time()
      rng = np.random.default_rng()
      self._time_rng_end = time.time()
      self._time_samples_start = time.time()
      for ...
      self._time_samples_end = time.time()
      return boot_counts
  \<close>
\<close>

definition run_single_process ::
    "'c Bootstrap \<Rightarrow> int \<Rightarrow> world \<Rightarrow> int list \<times> 'c Bootstrap \<times> world" where
  "run_single_process self n_samples w =
     (let (t1, w1) = time_time w;
          self1 = self\<lparr>time_rng_start := t1\<rparr>;
          (g, w2) = default_rng w1;
          (t2, w3) = time_time w2;
          self2 = self1\<lparr>time_rng_end := t2\<rparr>;
          (t3, w4) = time_time w3;
          self3 = self2\<lparr>time_samples_start := t3\<rparr>;
          (c1, g1, boot_counts) =
            single_loop (p_sample self3) (nat n_samples) (cache self3, g, []);
          self4 = self3\<lparr>cache := c1\<rparr>;
          (t4, w5) = time_time w4;
          self5 = self4\<lparr>time_samples_end := t4\<rparr>
      in (boot_counts, self5, w5))"

text \<open>
  \<^verbatim>\<open>pool.map(self._process_global_sample, range(num_samples))\<close> under global sharing.
  The pool's initializer has given every worker its own generator and its own copy of
  the object; replicate \<open>i\<close> is computed by worker \<open>pick i\<close> with that worker's
  generator and copy as the replicates before it left them. The results come back in
  the order of the replicates.
\<close>

fun pool_map_global ::
    "('c \<Rightarrow> rng \<Rightarrow> int \<times> rng \<times> 'c) \<Rightarrow> (nat \<Rightarrow> nat) \<Rightarrow> nat list \<Rightarrow> (nat \<Rightarrow> rng \<times> 'c) \<Rightarrow> int list" where
  "pool_map_global smp pick [] workers = []"
| "pool_map_global smp pick (i # rest) workers =
     (case workers (pick i) of
        (g, c) \<Rightarrow>
          (case smp c g of
             (n, g1, c1) \<Rightarrow> n # pool_map_global smp pick rest (workers(pick i := (g1, c1)))))"

text \<open>
  \<^verbatim>\<open>pool.map(self._sample, rngs)\<close>: the tasks carry copies of the object and of their
  generators to the workers, so for a \<^verbatim>\<open>_sample\<close> that does not change the object each
  result is that of \<^verbatim>\<open>_sample\<close> on the object as it is and the generator given; the
  results come back in the order of the generators.
\<close>

definition pool_map_sample :: "('c \<Rightarrow> rng \<Rightarrow> int \<times> rng \<times> 'c) \<Rightarrow> 'c \<Rightarrow> rng list \<Rightarrow> int list" where
  "pool_map_sample smp c rngs = map (\<lambda>g. fst (smp c g)) rngs"

text \<open>
  \<^verbatim>\<open>
  def __run_multi_process(self, num_samples, num_proc, progress):
      if num_proc == 0:
          num_proc = mp.cpu_count()
      if self.USE_GLOBAL_SHARING:
          self._time_pool_startup_start = time.time()
          with mp.Pool(initializer=self._process_global_init, initargs=(self,),
                       processes=num_proc) as pool:
              self._time_pool_startup_end = time.time()
              self._time_samples_start = time.time()
              boot_counts = pool.map(self._process_global_sample,
                                     progress(range(num_samples), num_samples))
              self._time_samples_end = time.time()
              return boot_counts
      else:
          self._time_pool_startup_start = time.time()
          with mp.Pool(processes=num_proc) as pool:
              self._time_pool_startup_end = time.time()
              self._time_rng_start = time.time()
              rngs = progress((np.random.default_rng(i) for i in range(num_samples)),
                              num_samples)
              self._time_rng_end = time.time()
              self._time_samples_start = time.time()
              boot_counts = pool.map(self._sample, rngs)
              self._time_samples_end = time.time()
              return boot_counts
  \<close>
  \<^verbatim>\<open>mp.Pool\<close> raises ValueError for fewer than one process. The first argument is
  numpy's seeded constructor \<^verbatim>\<open>np.random.default_rng(i)\<close>, a fixed function of the
  seed.
\<close>

definition run_multi_process ::
    "(nat \<Rightarrow> rng) \<Rightarrow> 'c Bootstrap \<Rightarrow> int \<Rightarrow> int \<Rightarrow> world \<Rightarrow>
     (error + int list) \<times> 'c Bootstrap \<times> world" where
  "run_multi_process seeded self n_samples num_proc0 w =
     (let num_proc = (if num_proc0 = 0 then int (cpu_count w) else num_proc0)
      in if USE_GLOBAL_SHARING self then
           (let (t1, w1) = time_time w;
                self1 = self\<lparr>time_pool_startup_start := t1\<rparr>
            in if num_proc < 1 then (Inl ValueError, self1, w1)
               else
                 (let workers = (\<lambda>k. (entropy w1 (created w1 + k), cache self1));
                      w2 = w1\<lparr>created := created w1 + nat num_proc\<rparr>;
                      (t2, w3) = time_time w2;
                      self2 = self1\<lparr>time_pool_startup_end := t2\<rparr>;
                      (t3, w4) = time_time w3;
                      self3 = self2\<lparr>time_samples_start := t3\<rparr>;
                      boot_counts =
                        pool_map_global (p_sample self3)
                          (\<lambda>i. worker_of w4 i mod nat num_proc) [0..<nat n_samples] workers;
                      (t4, w5) = time_time w4;
                      self4 = self3\<lparr>time_samples_end := t4\<rparr>
                  in (Inr boot_counts, self4, w5)))
         else
           (let (t1, w1) = time_time w;
                self1 = self\<lparr>time_pool_startup_start := t1\<rparr>
            in if num_proc < 1 then (Inl ValueError, self1, w1)
               else
                 (let (t2, w2) = time_time w1;
                      self2 = self1\<lparr>time_pool_startup_end := t2\<rparr>;
                      (t3, w3) = time_time w2;
                      self3 = self2\<lparr>time_rng_start := t3\<rparr>;
                      rngs = map seeded [0..<nat n_samples];
                      (t4, w4) = time_time w3;
                      self4 = self3\<lparr>time_rng_end := t4\<rparr>;
                      (t5, w5) = time_time w4;
                      self5 = self4\<lparr>time_samples_start := t5\<rparr>;
                      boot_counts = pool_map_sample (p_sample self5) (cache self5) rngs;
                      (t6, w6) = time_time w5;
                      self6 = self5\<lparr>time_samples_end := t6\<rparr>
                  in (Inr boot_counts, self6, w6))))"

text \<open>
  \<^verbatim>\<open>
  def run(self, num_samples=5000, num_proc=0, progress=...):
      if num_proc is None:
          boot_counts = self.__run_single_process(num_samples, progress)
      else:
          boot_counts = self.__run_multi_process(num_samples, num_proc, progress)
      return BootstrapResults(boot_counts)
  \<close>
\<close>

definition run ::
    "(nat \<Rightarrow> rng) \<Rightarrow> 'c Bootstrap \<Rightarrow> int \<Rightarrow> int option \<Rightarrow> world \<Rightarrow>
     (error + BootstrapResults) \<times> 'c Bootstrap \<times> world" where
  "run seeded self n_samples num_proc w =
     (case num_proc of
        None \<Rightarrow>
          (case run_single_process self n_samples w of
             (boot_counts, self1, w1) \<Rightarrow> (Inr (BootstrapResults_init boot_counts), self1, w1))
      | Some k \<Rightarrow>
          (case run_multi_process seeded self n_samples k w of
             (Inl e, self1, w1) \<Rightarrow> (Inl e, self1, w1)
           | (Inr boot_counts, self1, w1) \<Rightarrow>
               (Inr (BootstrapResults_init boot_counts), self1, w1)))"

section \<open>Validation of an experiment\<close>

text \<open>
  Modelled from the spec: \<^verbatim>\<open>Experiment.check()\<close>, whose file experiment.py is not part
  of the sources (its tests are). An experiment owns zero or one FAR table and zero or
  one FRR table. A table is valid when it has the six required columns. The check
  fails with a schema error when a table lacks a required column or has one of the two
  group columns without the other, with a semantic error when a FAR row is not an
  impostor attempt (enroll user different from verify user) or an FRR row is not a
  genuine attempt (same user and same finger), and with a group-conflict error when the
  (user, group) pairs of the enroll and verify columns of the tables give some user
  two different groups. It changes nothing: the experiment is returned as given.
\<close>

datatype check_error = SchemaError | SemanticError | GroupConflictError

record ExperimentTables =
  far_table :: "cell DataFrame option"
  frr_table :: "cell DataFrame option"

definition tables_of :: "ExperimentTables \<Rightarrow> cell DataFrame list" where
  "tables_of e =
     (case far_table e of None \<Rightarrow> [] | Some t \<Rightarrow> [t]) @
     (case frr_table e of None \<Rightarrow> [] | Some t \<Rightarrow> [t])"

definition DECISION_TABLE_COLS :: "string list" where
  "DECISION_TABLE_COLS =
     [''EnrollUser'', ''EnrollFinger'', ''VerifyUser'', ''VerifyFinger'', ''VerifySample'',
      ''Decision'']"

definition valid_table :: "cell DataFrame \<Rightarrow> bool" where
  "valid_table t = has_columns t DECISION_TABLE_COLS"

definition partial_groups :: "cell DataFrame \<Rightarrow> bool" where
  "partial_groups t =
     ((''EnrollGroup'' \<in> set (columns t)) \<noteq> (''VerifyGroup'' \<in> set (columns t)))"

definition impostor_attempt :: "(string \<Rightarrow> cell) \<Rightarrow> bool" where
  "impostor_attempt r = (r ''EnrollUser'' \<noteq> r ''VerifyUser'')"

definition genuine_attempt :: "(string \<Rightarrow> cell) \<Rightarrow> bool" where
  "genuine_attempt r =
     (r ''EnrollUser'' = r ''VerifyUser'' \<and> r ''EnrollFinger'' = r ''VerifyFinger'')"

definition far_rows_ok :: "ExperimentTables \<Rightarrow> bool" where
  "far_rows_ok e = (case far_table e of None \<Rightarrow> True | Some t \<Rightarrow> list_all impostor_attempt (rows t))"

definition frr_rows_ok :: "ExperimentTables \<Rightarrow> bool" where
  "frr_rows_ok e = (case frr_table e of None \<Rightarrow> True | Some t \<Rightarrow> list_all genuine_attempt (rows t))"

text \<open>The (user, group) pairs of a table: none when it has no group columns.\<close>

definition group_pairs :: "cell DataFrame \<Rightarrow> (cell \<times> cell) list" where
  "group_pairs t =
     (if ''EnrollGroup'' \<in> set (columns t) \<and> ''VerifyGroup'' \<in> set (columns t)
      then map (\<lambda>r. (r ''EnrollUser'', r ''EnrollGroup'')) (rows t) @
           map (\<lambda>r. (r ''VerifyUser'', r ''VerifyGroup'')) (rows t)
      else [])"

definition group_conflict :: "(cell \<times> cell) list \<Rightarrow> bool" where
  "group_conflict pairs =
     list_ex (\<lambda>p. list_ex (\<lambda>q. fst p = fst q \<and> snd p \<noteq> snd q) pairs) pairs"

definition check :: "ExperimentTables \<Rightarrow> (check_error + unit) \<times> ExperimentTables" where
  "check e =
     (if list_ex (\<lambda>t. \<not> valid_table t \<or> partial_groups t) (tables_of e)
        then (Inl SchemaError, e)
      else if \<not> far_rows_ok e \<or> \<not> frr_rows_ok e
        then (Inl SemanticError, e)
      else if group_conflict (concat (map group_pairs (tables_of e)))
        then (Inl GroupConflictError, e)
      else (Inr (), e))"

section \<open>Example data\<close>

text \<open>
  The scenario of the specification: two users, one finger, three samples. Every
  impostor attempt is rejected but the one of enroll user 10001, finger 1 against
  verify user 10002, finger 1, sample 2, which is the third row here.
\<close>

definition decision_row :: "int \<Rightarrow> int \<Rightarrow> int \<Rightarrow> int \<Rightarrow> int \<Rightarrow> Decision_enum \<Rightarrow> string \<Rightarrow> cell" where
  "decision_row eu ef vu vf vs d =
     blank(''EnrollUser'' := IntCell eu, ''EnrollFinger'' := IntCell ef,
           ''VerifyUser'' := IntCell vu, ''VerifyFinger'' := IntCell vf,
           ''VerifySample'' := IntCell vs, ''Decision'' := StrCell (Decision_value d))"

definition scenario_far_decisions :: "cell DataFrame" where
  "scenario_far_decisions =
     \<lparr>columns = DECISION_TABLE_COLS,
      rows = [decision_row 10001 1 10002 1 0 Reject,
              decision_row 10001 1 10002 1 1 Reject,
              decision_row 10001 1 10002 1 2 Accept,
              decision_row 10002 1 10001 1 0 Reject,
              decision_row 10002 1 10001 1 1 Reject,
              decision_row 10002 1 10001 1 2 Reject]\<rparr>"

definition scenario_fa_table :: "cell DataFrame" where
  "scenario_fa_table =
     \<lparr>columns = DECISION_TABLE_COLS, rows = [decision_row 10001 1 10002 1 2 Accept]\<rparr>"

definition scenario_experiment :: "Experiment" where
  "scenario_experiment =
     \<lparr>far_decisions = scenario_far_decisions,
      fa_table = scenario_fa_table,
      fr_table = \<lparr>columns = DECISION_TABLE_COLS, rows = []\<rparr>,
      user_list = [IntCell 10001, IntCell 10002],
      finger_list = [IntCell 1],
      sample_list = [IntCell 0, IntCell 1, IntCell 2]\<rparr>"

definition scenario_flat :: "FARFlat" where
  "scenario_flat = \<lparr>far_list = [False, False, True, False, False, False]\<rparr>"

definition scenario_hierarchy :: "Hierarchy" where
  "scenario_hierarchy =
     \<lparr>fa_set = \<lparr>set_m = {[IntCell 10002, IntCell 10001, IntCell 1, IntCell 1, IntCell 2]}\<rparr>,
      fa_trie = \<lparr>counted_rows = [[IntCell 10002, IntCell 10001, IntCell 1, IntCell 1, IntCell 2]]\<rparr>,
      users_list = [IntCell 10001, IntCell 10002],
      fingers_list = [IntCell 1],
      samples_list = [IntCell 0, IntCell 1, IntCell 2]\<rparr>"

text \<open>A table that breaks the impostor rule: one accepted attempt of a user against itself.\<close>

definition self_match_hierarchy :: "Hierarchy" where
  "self_match_hierarchy =
     \<lparr>fa_set = \<lparr>set_m = {[IntCell 10001, IntCell 10001, IntCell 1, IntCell 1, IntCell 0]}\<rparr>,
      fa_trie = \<lparr>counted_rows = [[IntCell 10001, IntCell 10001, IntCell 1, IntCell 1, IntCell 0]]\<rparr>,
      users_list = [IntCell 10001],
      fingers_list = [IntCell 1],
      samples_list = [IntCell 0]\<rparr>"

text \<open>The generator whose raw numbers are 0, 1, 2, ...\<close>

definition counting_outputs :: "nat \<Rightarrow> nat" where
  "counting_outputs i = i"

definition counting_rng :: rng where
  "counting_rng = \<lparr>outputs = counting_outputs, pos = 0\<rparr>"

text \<open>The generator that gives 2 every time.\<close>

definition accept_outputs :: "nat \<Rightarrow> nat" where
  "accept_outputs i = 2"

definition accept_rng :: rng where
  "accept_rng = \<lparr>outputs = accept_outputs, pos = 0\<rparr>"

text \<open>
  A world for examples: the clock reads 1000, 1001, ...; every generator made from
  entropy counts; four processors; replicate \<open>i\<close> goes to worker \<open>i\<close> modulo the pool.
\<close>

definition example_clock :: "nat \<Rightarrow> real" where
  "example_clock i = 1000 + real i"

definition example_entropy :: "nat \<Rightarrow> rng" where
  "example_entropy k = counting_rng"

definition example_worker_of :: "nat \<Rightarrow> nat" where
  "example_worker_of i = i"

definition example_world :: world where
  "example_world =
     \<lparr>clock = example_clock, ticks = 0, entropy = example_entropy, created = 0,
      cpu_count = 4, worker_of = example_worker_of\<rparr>"

text \<open>A seeded constructor for examples: seed \<open>i\<close> gives the raw numbers 0, i, 2i, ...\<close>

definition example_seeded_outputs :: "nat \<Rightarrow> nat \<Rightarrow> nat" where
  "example_seeded_outputs i j = i * j"

definition example_seeded :: "nat \<Rightarrow> rng" where
  "example_seeded i = \<lparr>outputs = example_seeded_outputs i, pos = 0\<rparr>"

text \<open>
  The flat strategy on the scenario as \<^verbatim>\<open>BootstrapFARFlat(exp)\<close> builds it in the example
  world, the world after the construction, and the same object of a subclass that
  turns global sharing off.
\<close>

definition scenario_object :: "FARFlat Bootstrap" where
  "scenario_object =
     \<lparr>cache = scenario_flat, p_sample = FARFlat_sample, USE_GLOBAL_SHARING = True,
      p_verbose = False, time_init_start = 1000, time_init_end = 1001,
      time_rng_start = 0, time_rng_end = 0,
      time_pool_startup_start = 0, time_pool_startup_end = 0,
      time_samples_start = 0, time_samples_end = 0\<rparr>"

definition world_after_init :: world where
  "world_after_init = example_world\<lparr>ticks := 2\<rparr>"

definition unshared_object :: "FARFlat Bootstrap" where
  "unshared_object = scenario_object\<lparr>USE_GLOBAL_SHARING := False\<rparr>"

text \<open>
  The tables of the test \<^verbatim>\<open>Test_Experiment_check\<close>, with group columns, and an FRR
  table that puts user 10001 in group B where the FAR table has it in group A.
\<close>

definition grouped_row ::
    "int \<Rightarrow> int \<Rightarrow> int \<Rightarrow> int \<Rightarrow> int \<Rightarrow> Decision_enum \<Rightarrow> string \<Rightarrow> string \<Rightarrow> string \<Rightarrow> cell" where
  "grouped_row eu ef vu vf vs d eg vg =
     (decision_row eu ef vu vf vs d)(''EnrollGroup'' := StrCell eg, ''VerifyGroup'' := StrCell vg)"

definition DECISION_TABLE_GROUP_COLS :: "string list" where
  "DECISION_TABLE_GROUP_COLS = [''EnrollGroup'', ''VerifyGroup'']"

definition FAR_DATAFRAME :: "cell DataFrame" where
  "FAR_DATAFRAME =
     \<lparr>columns = DECISION_TABLE_COLS @ DECISION_TABLE_GROUP_COLS,
      rows = [grouped_row 10001 1 10002 3 12 Reject ''A'' ''B'',
              grouped_row 10001 1 10002 3 13 Reject ''A'' ''B'']\<rparr>"

definition FRR_DATAFRAME :: "cell DataFrame" where
  "FRR_DATAFRAME =
     \<lparr>columns = DECISION_TABLE_COLS @ DECISION_TABLE_GROUP_COLS,
      rows = [grouped_row 10001 1 10001 1 25 Accept ''A'' ''A'',
              grouped_row 10002 2 10002 2 25 Accept ''B'' ''B'']\<rparr>"

definition FRR_OTHER_GROUP :: "cell DataFrame" where
  "FRR_OTHER_GROUP =
     \<lparr>columns = DECISION_TABLE_COLS @ DECISION_TABLE_GROUP_COLS,
      rows = [grouped_row 10001 1 10001 1 25 Accept ''B'' ''B'',
              grouped_row 10002 2 10002 2 25 Accept ''B'' ''B'']\<rparr>"

definition correct_with_groups :: ExperimentTables where
  "correct_with_groups = \<lparr>far_table = Some FAR_DATAFRAME, frr_table = Some FRR_DATAFRAME\<rparr>"

definition conflicting_groups :: ExperimentTables where
  "conflicting_groups = \<lparr>far_table = Some FAR_DATAFRAME, frr_table = Some FRR_OTHER_GROUP\<rparr>"

section \<open>Results of the verification\<close>

lemma confidence_interval_frame: "snd (confidence_interval self p) = self"
  by (simp add: confidence_interval_def Let_def)

lemma confidence_interval_calls_frame: "confidence_interval_calls self ps = self"
  by (induction ps arbitrary: self) (simp_all add: confidence_interval_frame)

text \<open>
  C10. For every list of integers \<open>xs\<close>, \<^verbatim>\<open>BootstrapResults(xs).samples()\<close> is \<open>xs\<close>
  itself, \<^verbatim>\<open>num_samples()\<close> is its length, and after any sequence of
  \<^verbatim>\<open>confidence_interval\<close> calls \<^verbatim>\<open>samples()\<close> is still \<open>xs\<close>.
\<close>

theorem C10_samples_roundtrip:
  "samples (BootstrapResults_init xs) = xs \<and>
   num_samples (BootstrapResults_init xs) = length xs \<and>
   samples (confidence_interval_calls (BootstrapResults_init xs) ps) = xs"
  by (simp add: confidence_interval_calls_frame samples_def num_samples_def
      BootstrapResults_init_def)

theorem C10_samples_roundtrip_witness:
  "samples (BootstrapResults_init [3, 1, 2]) = [3, 1, 2] \<and>
   num_samples (BootstrapResults_init [3, 1, 2]) = 3 \<and>
   samples (confidence_interval_calls (BootstrapResults_init [3, 1, 2]) [95, 99, 200]) = [3, 1, 2]"
  using C10_samples_roundtrip [of "[3, 1, 2]" "[95, 99, 200]"] by simp

lemma DataFrameSetAccess_init_cols:
  assumes "cols \<noteq> []" and "set cols \<subseteq> set (columns table)"
  shows "DataFrameSetAccess_init table (Some cols) = Inr \<lparr>set_m = set (projected_rows table cols)\<rparr>"
proof -
  from assms(2) have "list_all (\<lambda>c. c \<in> set (columns table)) cols"
    by (auto simp: list_all_iff)
  with assms(1) show ?thesis
    by (simp add: DataFrameSetAccess_init_def getitem_cols_def np_array_def projected_rows_def)
qed

lemma DataFrameSetAccess_init_all:
  "DataFrameSetAccess_init table None = Inr \<lparr>set_m = set (projected_rows table (columns table))\<rparr>"
  "DataFrameSetAccess_init table (Some []) = Inr \<lparr>set_m = set (projected_rows table (columns table))\<rparr>"
  by (simp_all add: DataFrameSetAccess_init_def getitem_cols_def np_array_def projected_rows_def
      list_all_iff)

lemma projected_rows_domain:
  assumes "t \<in> set (projected_rows table cols)" and "i < length cols"
  shows "t ! i \<in> column_domain table (cols ! i)"
  using assms by (auto simp: projected_rows_def column_domain_def)

text \<open>
  C3, as the code has it. For a non-empty column list whose columns all occur in the
  table, the index is built, \<^verbatim>\<open>isin(t)\<close> holds exactly when \<open>t\<close> is a row of the table
  projected onto that column list, and a tuple with a component outside the domain of
  its column is not in the index. With no column list, or an empty one, the index is
  built over all the columns of the table, in the table's order.
\<close>

theorem C3_membership_index:
  assumes "cols \<noteq> []" and "set cols \<subseteq> set (columns table)"
  shows "\<exists>idx. DataFrameSetAccess_init table (Some cols) = Inr idx \<and>
           (\<forall>t. isin idx t \<longleftrightarrow> t \<in> set (projected_rows table cols)) \<and>
           (\<forall>t i. i < length cols \<and> t ! i \<notin> column_domain table (cols ! i) \<longrightarrow> \<not> isin idx t) \<and>
           DataFrameSetAccess_init table None =
             Inr \<lparr>set_m = set (projected_rows table (columns table))\<rparr> \<and>
           DataFrameSetAccess_init table (Some []) = DataFrameSetAccess_init table None"
proof -
  let ?idx = "\<lparr>set_m = set (projected_rows table cols)\<rparr>"
  have built: "DataFrameSetAccess_init table (Some cols) = Inr ?idx"
    using assms by (rule DataFrameSetAccess_init_cols)
  have member: "\<forall>t. isin ?idx t \<longleftrightarrow> t \<in> set (projected_rows table cols)"
    by (simp add: isin_def)
  have outside: "\<forall>t i. i < length cols \<and> t ! i \<notin> column_domain table (cols ! i) \<longrightarrow> \<not> isin ?idx t"
    using projected_rows_domain [of _ table cols] by (auto simp: isin_def)
  from built member outside show ?thesis
    by (simp add: DataFrameSetAccess_init_all)
qed

theorem C3_membership_index_witness:
  "isin (projr (DataFrameSetAccess_init one_cell_table (Some [''VerifyUser'']))) [IntCell 10001] \<and>
   \<not> isin (projr (DataFrameSetAccess_init one_cell_table (Some [''VerifyUser'']))) [IntCell 7]"
proof -
  have "[''VerifyUser''] \<noteq> []" and "set [''VerifyUser''] \<subseteq> set (columns one_cell_table)"
    by (simp_all add: one_cell_table_def)
  from C3_membership_index [OF this] obtain idx where
    idx: "DataFrameSetAccess_init one_cell_table (Some [''VerifyUser'']) = Inr idx"
    and member: "\<forall>t. isin idx t \<longleftrightarrow> t \<in> set (projected_rows one_cell_table [''VerifyUser''])"
    by blast
  have "isin idx [IntCell 10001]" and "\<not> isin idx [IntCell 7]"
    by (simp_all add: member projected_rows_def one_cell_table_def)
  then show ?thesis
    by (simp add: idx)
qed

text \<open>
  The claim as written fails for the empty column list: the projection of a table with
  one row onto no columns has the empty tuple as a row, but the index, built over all
  columns instead, does not hold it.
\<close>

theorem C3_empty_cols_counterexample:
  "DataFrameSetAccess_init one_cell_table (Some []) = Inr \<lparr>set_m = {[IntCell 10001]}\<rparr> \<and>
   [] \<in> set (projected_rows one_cell_table []) \<and>
   \<not> isin \<lparr>set_m = {[IntCell 10001]}\<rparr> []"
  by (simp add: DataFrameSetAccess_init_def getitem_cols_def np_array_def projected_rows_def
      one_cell_table_def isin_def)

lemma np_percentile_ok:
  assumes "a \<noteq> []" and "0 \<le> q1" "q1 \<le> 100" "0 \<le> q2" "q2 \<le> 100"
  shows "np_percentile a [q1, q2] = Inr [percentile_linear a q1, percentile_linear a q2]"
  using assms by (simp add: np_percentile_def)

lemma percentile_linear_1000_lower:
  assumes "length xs = 1000"
  shows "percentile_linear xs (5 / 2) =
         of_int (sort xs ! 24) + 39 / 40 * (of_int (sort xs ! 25) - of_int (sort xs ! 24))"
proof -
  have vi: "virtual_index 1000 (5 / 2) = 999 / 40"
    by (simp add: virtual_index_def)
  have fl: "\<lfloor>999 / 40 :: rat\<rfloor> = 24"
    by (rule floor_unique) simp_all
  show ?thesis
    using assms by (simp add: percentile_linear_def Let_def vi fl)
qed

lemma percentile_linear_1000_upper:
  assumes "length xs = 1000"
  shows "percentile_linear xs (195 / 2) =
         of_int (sort xs ! 974) + 1 / 40 * (of_int (sort xs ! 975) - of_int (sort xs ! 974))"
proof -
  have vi: "virtual_index 1000 (195 / 2) = 38961 / 40"
    by (simp add: virtual_index_def)
  have fl: "\<lfloor>38961 / 40 :: rat\<rfloor> = 974"
    by (rule floor_unique) simp_all
  show ?thesis
    using assms by (simp add: percentile_linear_def Let_def vi fl)
qed

text \<open>
  C2, as the code has it. For every non-empty list of replicate counts and every
  confidence percent between -100 and 100, \<^verbatim>\<open>confidence_interval\<close> returns the two
  percentiles of the samples at the levels \<open>(100 - p) / 2\<close> and \<open>100 - (100 - p) / 2\<close>.
  For 1000 replicate counts and \<open>p = 95\<close> these are the 2.5th and the 97.5th
  percentile: with \<open>s\<close> the counts in ascending order, the values at the virtual indices
  24.975 and 974.025, that is \<open>s[24] + 0.975 (s[25] - s[24])\<close> and
  \<open>s[974] + 0.025 (s[975] - s[974])\<close>; a sorted list is its own ascending order.
\<close>

theorem C2_confidence_interval:
  assumes "xs \<noteq> []" and "- 100 \<le> p" and "p \<le> 100"
  shows "fst (confidence_interval (BootstrapResults_init xs) p) =
           Inr [percentile_linear xs ((100 - of_int p) / 2),
                percentile_linear xs (100 - (100 - of_int p) / 2)] \<and>
         (length xs = 1000 \<longrightarrow>
            fst (confidence_interval (BootstrapResults_init xs) 95) =
              Inr [of_int (sort xs ! 24) + 39 / 40 * (of_int (sort xs ! 25) - of_int (sort xs ! 24)),
                   of_int (sort xs ! 974) + 1 / 40 * (of_int (sort xs ! 975) - of_int (sort xs ! 974))]) \<and>
         (sorted xs \<longrightarrow> sort xs = xs)"
proof -
  let ?lo = "(100 - of_int p) / 2 :: rat"
  from assms(2,3) have range: "0 \<le> ?lo" "?lo \<le> 100" "0 \<le> 100 - ?lo" "100 - ?lo \<le> 100"
    by simp_all
  have general: "fst (confidence_interval (BootstrapResults_init xs) p) =
      Inr [percentile_linear xs ?lo, percentile_linear xs (100 - ?lo)]"
    using np_percentile_ok [OF assms(1) range]
    by (simp add: confidence_interval_def BootstrapResults_init_def Let_def)
  have levels: "(100 - of_int 95) / 2 = (5 / 2 :: rat)" "100 - (5 / 2 :: rat) = 195 / 2"
    by simp_all
  have thousand: "fst (confidence_interval (BootstrapResults_init xs) 95) =
      Inr [percentile_linear xs (5 / 2), percentile_linear xs (195 / 2)]"
    using np_percentile_ok [OF assms(1), of "5 / 2" "195 / 2"]
    by (simp add: confidence_interval_def BootstrapResults_init_def Let_def)
  show ?thesis
    using general thousand
    by (simp add: percentile_linear_1000_lower percentile_linear_1000_upper sorted_sort_id)
qed

theorem C2_confidence_interval_witness:
  "fst (confidence_interval (BootstrapResults_init [1, 2, 3, 4, 5]) 50) = Inr [2, 4]"
proof -
  have "[1, 2, 3, 4, 5] \<noteq> ([] :: int list)" and "- 100 \<le> (50 :: int)" and "(50 :: int) \<le> 100"
    by simp_all
  from C2_confidence_interval [OF this]
  have "fst (confidence_interval (BootstrapResults_init [1, 2, 3, 4, 5]) 50) =
          Inr [percentile_linear [1, 2, 3, 4, 5] ((100 - of_int 50) / 2),
               percentile_linear [1, 2, 3, 4, 5] (100 - (100 - of_int 50) / 2)]"
    by blast
  then show ?thesis
    by (simp add: percentile_linear_def virtual_index_def Let_def)
qed

text \<open>
  The claim as written fails for a confidence percent above 100: the lower level is
  negative, and \<^verbatim>\<open>np.percentile\<close> raises ValueError instead of returning a pair.
\<close>

theorem C2_percent_out_of_range_counterexample:
  "fst (confidence_interval (BootstrapResults_init [1, 2, 3]) 101) = Inl ValueError"
  by (simp add: confidence_interval_def BootstrapResults_init_def np_percentile_def Let_def)

subsection \<open>Resampling and the hierarchy loops\<close>

lemma drawn_indices_length: "length (drawn_indices g n) = n"
  by (simp add: drawn_indices_def)

lemma drawn_indices_bound: "i \<in> set (drawn_indices g n) \<Longrightarrow> i < n"
  by (cases "n = 0") (auto simp: drawn_indices_def)

lemma boot_sample_length: "length (fst (boot_sample a g)) = length a"
  by (simp add: boot_sample_def drawn_indices_length)

lemma boot_sample_subset: "set (fst (boot_sample a g)) \<subseteq> set a"
  by (auto simp: boot_sample_def dest: drawn_indices_bound)

lemma fold_descend_deepest:
  "fold (descend H [] p) xs st = (fst st, snd st @ map (\<lambda>x. p @ [x]) xs)"
  by (induction xs arbitrary: st) simp_all

lemma far_for_a_eq:
  "far_for_a c v t fv ft xs sample = sample @ map (\<lambda>a. isin (fa_set c) [v, t, fv, ft, a]) xs"
  by (induction xs arbitrary: sample) simp_all

lemma far_for_ft_eq:
  "far_for_ft c v t fv xs (apsnd (map (isin (fa_set c))) st) =
   apsnd (map (isin (fa_set c)))
     (fold (descend (trie_isin (fa_trie c)) [samples_list c] [v, t, fv]) xs st)"
proof (induction xs arbitrary: st)
  case Nil
  show ?case by simp
next
  case (Cons ft xs)
  obtain g out where st: "st = (g, out)" by (cases st)
  show ?case
  proof (cases "trie_isin (fa_trie c) [v, t, fv, ft]")
    case False
    then show ?thesis using Cons.IH [of st] by (simp add: st)
  next
    case True
    obtain drawn g1 where bs: "boot_sample (samples_list c) g = (drawn, g1)"
      by (cases "boot_sample (samples_list c) g")
    have "far_for_ft c v t fv (ft # xs) (apsnd (map (isin (fa_set c))) st) =
          far_for_ft c v t fv xs
            (apsnd (map (isin (fa_set c))) (g1, out @ map (\<lambda>a. [v, t, fv, ft, a]) drawn))"
      using True by (simp add: st bs far_for_a_eq comp_def)
    also have "\<dots> = apsnd (map (isin (fa_set c)))
        (fold (descend (trie_isin (fa_trie c)) [samples_list c] [v, t, fv]) xs
           (g1, out @ map (\<lambda>a. [v, t, fv, ft, a]) drawn))"
      by (rule Cons.IH)
    also have "\<dots> = apsnd (map (isin (fa_set c)))
        (fold (descend (trie_isin (fa_trie c)) [samples_list c] [v, t, fv]) (ft # xs) st)"
      using True by (simp add: st bs fold_descend_deepest)
    finally show ?thesis .
  qed
qed


lemma far_for_fv_eq:
  "far_for_fv c v t xs (apsnd (map (isin (fa_set c))) st) =
   apsnd (map (isin (fa_set c)))
     (fold (descend (trie_isin (fa_trie c)) [fingers_list c, samples_list c] [v, t]) xs st)"
proof (induction xs arbitrary: st)
  case Nil
  show ?case by simp
next
  case (Cons fv xs)
  obtain g out where st: "st = (g, out)" by (cases st)
  show ?case
  proof (cases "trie_isin (fa_trie c) [v, t, fv]")
    case False
    then show ?thesis using Cons.IH [of st] by (simp add: st)
  next
    case True
    obtain drawn g1 where bs: "boot_sample (fingers_list c) g = (drawn, g1)"
      by (cases "boot_sample (fingers_list c) g")
    let ?inner = "fold (descend (trie_isin (fa_trie c)) [samples_list c] [v, t, fv]) drawn (g1, out)"
    have "far_for_fv c v t (fv # xs) (apsnd (map (isin (fa_set c))) st) =
          far_for_fv c v t xs (far_for_ft c v t fv drawn (apsnd (map (isin (fa_set c))) (g1, out)))"
      using True by (simp add: st bs)
    also have "\<dots> = far_for_fv c v t xs (apsnd (map (isin (fa_set c))) ?inner)"
      by (simp only: far_for_ft_eq)
    also have "\<dots> = apsnd (map (isin (fa_set c)))
        (fold (descend (trie_isin (fa_trie c)) [fingers_list c, samples_list c] [v, t]) xs ?inner)"
      by (rule Cons.IH)
    also have "\<dots> = apsnd (map (isin (fa_set c)))
        (fold (descend (trie_isin (fa_trie c)) [fingers_list c, samples_list c] [v, t]) (fv # xs) st)"
      using True by (simp add: st bs)
    finally show ?thesis .
  qed
qed

lemma far_for_t_eq:
  "far_for_t c v xs (apsnd (map (isin (fa_set c))) st) =
   apsnd (map (isin (fa_set c)))
     (fold (descend (trie_isin (fa_trie c)) [fingers_list c, fingers_list c, samples_list c] [v]) xs st)"
proof (induction xs arbitrary: st)
  case Nil
  show ?case by simp
next
  case (Cons t xs)
  obtain g out where st: "st = (g, out)" by (cases st)
  show ?case
  proof (cases "trie_isin (fa_trie c) [v, t]")
    case False
    then show ?thesis using Cons.IH [of st] by (simp add: st)
  next
    case True
    obtain drawn g1 where bs: "boot_sample (fingers_list c) g = (drawn, g1)"
      by (cases "boot_sample (fingers_list c) g")
    let ?inner = "fold (descend (trie_isin (fa_trie c)) [fingers_list c, samples_list c] [v, t]) drawn (g1, out)"
    have "far_for_t c v (t # xs) (apsnd (map (isin (fa_set c))) st) =
          far_for_t c v xs (far_for_fv c v t drawn (apsnd (map (isin (fa_set c))) (g1, out)))"
      using True by (simp add: st bs)
    also have "\<dots> = far_for_t c v xs (apsnd (map (isin (fa_set c))) ?inner)"
      by (simp only: far_for_fv_eq)
    also have "\<dots> = apsnd (map (isin (fa_set c)))
        (fold (descend (trie_isin (fa_trie c)) [fingers_list c, fingers_list c, samples_list c] [v]) xs ?inner)"
      by (rule Cons.IH)
    also have "\<dots> = apsnd (map (isin (fa_set c)))
        (fold (descend (trie_isin (fa_trie c)) [fingers_list c, fingers_list c, samples_list c] [v]) (t # xs) st)"
      using True by (simp add: st bs)
    finally show ?thesis .
  qed
qed

lemma far_for_v_eq:
  "far_for_v c xs (apsnd (map (isin (fa_set c))) st) =
   apsnd (map (isin (fa_set c)))
     (fold (descend (trie_isin (fa_trie c)) [users_list c, fingers_list c, fingers_list c, samples_list c] []) xs st)"
proof (induction xs arbitrary: st)
  case Nil
  show ?case by simp
next
  case (Cons v xs)
  obtain g out where st: "st = (g, out)" by (cases st)
  show ?case
  proof (cases "trie_isin (fa_trie c) [v]")
    case False
    then show ?thesis using Cons.IH [of st] by (simp add: st)
  next
    case True
    obtain drawn g1 where bs: "boot_sample (users_list c) g = (drawn, g1)"
      by (cases "boot_sample (users_list c) g")
    let ?inner = "fold (descend (trie_isin (fa_trie c)) [fingers_list c, fingers_list c, samples_list c] [v]) drawn (g1, out)"
    have "far_for_v c (v # xs) (apsnd (map (isin (fa_set c))) st) =
          far_for_v c xs (far_for_t c v drawn (apsnd (map (isin (fa_set c))) (g1, out)))"
      using True by (simp add: st bs)
    also have "\<dots> = far_for_v c xs (apsnd (map (isin (fa_set c))) ?inner)"
      by (simp only: far_for_t_eq)
    also have "\<dots> = apsnd (map (isin (fa_set c)))
        (fold (descend (trie_isin (fa_trie c)) [users_list c, fingers_list c, fingers_list c, samples_list c] []) xs ?inner)"
      by (rule Cons.IH)
    also have "\<dots> = apsnd (map (isin (fa_set c)))
        (fold (descend (trie_isin (fa_trie c)) [users_list c, fingers_list c, fingers_list c, samples_list c] []) (v # xs) st)"
      using True by (simp add: st bs)
    finally show ?thesis .
  qed
qed

lemma np_sum_map: "np_sum (map Q xs) = int (length (filter Q xs))"
  by (simp add: np_sum_def filter_map comp_def)

lemma FullFARHierarchy_sample_draws:
  "FullFARHierarchy_sample c g =
     (int (length (filter (isin (fa_set c)) (snd (far_hierarchy_draws c g)))),
      fst (far_hierarchy_draws c g), c)"
proof -
  obtain drawn g1 where bs: "boot_sample (users_list c) g = (drawn, g1)"
    by (cases "boot_sample (users_list c) g")
  have "far_for_v c drawn (apsnd (map (isin (fa_set c))) (g1, [])) =
        apsnd (map (isin (fa_set c))) (far_hierarchy_draws c g)"
    by (simp only: far_for_v_eq far_hierarchy_draws_def bs fst_conv snd_conv)
  then have "far_for_v c drawn (g1, []) =
        (fst (far_hierarchy_draws c g), map (isin (fa_set c)) (snd (far_hierarchy_draws c g)))"
    by (simp add: apsnd_def map_prod_def case_prod_beta)
  then show ?thesis
    by (simp add: FullFARHierarchy_sample_def bs np_sum_map)
qed

lemma descend_admissible:
  assumes "q \<in> set (snd (fold (descend H deeper prefix) cands st))"
    and "set cands \<subseteq> set axis"
  shows "q \<in> set (snd st) \<or> (\<exists>s. q = prefix @ s \<and> admissible H (axis # deeper) prefix s)"
  using assms
proof (induction deeper arbitrary: axis prefix cands st q)
  case Nil
  from Nil.prems(1) have "q \<in> set (snd st @ map (\<lambda>x. prefix @ [x]) cands)"
    by (simp only: fold_descend_deepest snd_conv)
  then consider "q \<in> set (snd st)" | x where "x \<in> set cands" and "q = prefix @ [x]"
    by auto
  then show ?case
  proof cases
    case 1
    then show ?thesis by blast
  next
    case 2
    with Nil.prems(2) have "q = prefix @ [x] \<and> admissible H [axis] prefix [x]"
      by auto
    then show ?thesis by blast
  qed
next
  case (Cons b rest)
  note outer = Cons.IH
  from Cons.prems show ?case
  proof (induction cands arbitrary: st)
    case Nil
    then show ?case by simp
  next
    case (Cons x xs)
    let ?st1 = "descend H (b # rest) prefix x st"
    from Cons.prems(1) have "q \<in> set (snd (fold (descend H (b # rest) prefix) xs ?st1))"
      by (simp only: fold_simps o_apply)
    moreover from Cons.prems(2) have sub: "set xs \<subseteq> set axis" and x: "x \<in> set axis"
      by simp_all
    ultimately have "q \<in> set (snd (fold (descend H (b # rest) prefix) xs ?st1))"
      and "set xs \<subseteq> set axis"
      by blast+
    with Cons.IH [of ?st1]
    consider "q \<in> set (snd ?st1)"
      | "\<exists>s. q = prefix @ s \<and> admissible H (axis # b # rest) prefix s"
      by blast
    then show ?case
    proof cases
      case 2
      then show ?thesis by blast
    next
      case 1
      show ?thesis
      proof (cases "H (prefix @ [x])")
        case False
        with 1 show ?thesis by simp
      next
        case True
        with 1 have "q \<in> set (snd (fold (descend H rest (prefix @ [x]))
                       (fst (boot_sample b (fst st))) (snd (boot_sample b (fst st)), snd st)))"
          by simp
        from outer [OF this boot_sample_subset]
        show ?thesis
        proof
          assume "q \<in> set (snd (snd (boot_sample b (fst st)), snd st))"
          then show ?thesis by simp
        next
          assume "\<exists>s. q = (prefix @ [x]) @ s \<and> admissible H (b # rest) (prefix @ [x]) s"
          then obtain s where "q = prefix @ x # s" and "admissible H (b # rest) (prefix @ [x]) s"
            by auto
          with x True have "q = prefix @ (x # s) \<and> admissible H (axis # b # rest) prefix (x # s)"
            by simp
          then show ?thesis by blast
        qed
      qed
    qed
  qed
qed

lemma admissible_five:
  assumes "admissible H [a1, a2, a3, a4, a5] [] q"
  shows "\<exists>v t fv ft a. q = [v, t, fv, ft, a] \<and>
           v \<in> set a1 \<and> t \<in> set a2 \<and> fv \<in> set a3 \<and> ft \<in> set a4 \<and> a \<in> set a5 \<and>
           H [v] \<and> H [v, t] \<and> H [v, t, fv] \<and> H [v, t, fv, ft]"
proof -
  from assms obtain v q1 where q: "q = v # q1" and v: "v \<in> set a1" "H [v]"
    and r1: "admissible H [a2, a3, a4, a5] [v] q1"
    by (cases q) auto
  from r1 obtain t q2 where q1: "q1 = t # q2" and t: "t \<in> set a2" "H [v, t]"
    and r2: "admissible H [a3, a4, a5] [v, t] q2"
    by (cases q1) auto
  from r2 obtain fv q3 where q2: "q2 = fv # q3" and fv: "fv \<in> set a3" "H [v, t, fv]"
    and r3: "admissible H [a4, a5] [v, t, fv] q3"
    by (cases q2) auto
  from r3 obtain ft q4 where q3: "q3 = ft # q4" and ft: "ft \<in> set a4" "H [v, t, fv, ft]"
    and r4: "admissible H [a5] [v, t, fv, ft] q4"
    by (cases q3) auto
  from r4 obtain a where q4: "q4 = [a]" and a: "a \<in> set a5"
    by (cases q4) auto
  show ?thesis
    using q q1 q2 q3 q4 v t fv ft a by blast
qed

lemma far_hierarchy_draws_admissible:
  assumes "q \<in> set (snd (far_hierarchy_draws c g))"
  shows "admissible (trie_isin (fa_trie c))
           [users_list c, users_list c, fingers_list c, fingers_list c, samples_list c] [] q"
proof -
  from assms have "q \<in> set (snd (fold (descend (trie_isin (fa_trie c))
             [users_list c, fingers_list c, fingers_list c, samples_list c] [])
          (fst (boot_sample (users_list c) g))
          (snd (boot_sample (users_list c) g), [])))"
    by (simp add: far_hierarchy_draws_def)
  from descend_admissible [OF this boot_sample_subset]
  show ?thesis by simp
qed

lemma FullFARHierarchy_init_fields:
  assumes "FullFARHierarchy_init exper = Inr c"
  shows "fa_set c = \<lparr>set_m = set (projected_rows (fa_table exper) fa_set_tuple)\<rparr>"
    and "fa_trie c = \<lparr>counted_rows = projected_rows (fa_table exper) fa_set_tuple\<rparr>"
    and "users_list c = user_list exper"
    and "fingers_list c = finger_list exper"
    and "samples_list c = sample_list exper"
proof -
  from assms have cols: "has_columns (fa_table exper) fa_set_tuple"
    by (simp add: FullFARHierarchy_init_def Let_def split: if_splits)
  then have sub: "set fa_set_tuple \<subseteq> set (columns (fa_table exper))"
    by (auto simp: has_columns_def list_all_iff)
  have ne: "fa_set_tuple \<noteq> []"
    by (simp add: fa_set_tuple_def)
  have s: "DataFrameSetAccess_init (fa_table exper) (Some fa_set_tuple) =
      Inr \<lparr>set_m = set (projected_rows (fa_table exper) fa_set_tuple)\<rparr>"
    using ne sub by (rule DataFrameSetAccess_init_cols)
  have t: "DataFrameCountTrieAccess_init (fa_table exper) fa_set_tuple =
      Inr \<lparr>counted_rows = projected_rows (fa_table exper) fa_set_tuple\<rparr>"
    using cols
    by (simp add: DataFrameCountTrieAccess_init_def getitem_cols_def has_columns_def
        np_array_def projected_rows_def)
  from assms cols have c: "c = \<lparr>fa_set = \<lparr>set_m = set (projected_rows (fa_table exper) fa_set_tuple)\<rparr>,
      fa_trie = \<lparr>counted_rows = projected_rows (fa_table exper) fa_set_tuple\<rparr>,
      users_list = user_list exper, fingers_list = finger_list exper,
      samples_list = sample_list exper\<rparr>"
    by (simp add: FullFARHierarchy_init_def Let_def s t)
  show "fa_set c = \<lparr>set_m = set (projected_rows (fa_table exper) fa_set_tuple)\<rparr>"
    and "fa_trie c = \<lparr>counted_rows = projected_rows (fa_table exper) fa_set_tuple\<rparr>"
    and "users_list c = user_list exper"
    and "fingers_list c = finger_list exper"
    and "samples_list c = sample_list exper"
    by (simp_all add: c)
qed

lemma trie_isin_iff:
  "trie_isin t p \<longleftrightarrow> (\<exists>r \<in> set (counted_rows t). take (length p) r = p)"
  by (auto simp: trie_isin_def trie_counts_def filter_empty_conv)

lemma no_self_match_in_index:
  assumes init: "FullFARHierarchy_init exper = Inr c"
    and impostor: "\<forall>r \<in> set (rows (fa_table exper)).
        r (TableCol_value Enroll_User) \<noteq> r (TableCol_value Verify_User)"
  shows "\<not> isin (fa_set c) [v, v, fv, ft, a]"
proof
  assume "isin (fa_set c) [v, v, fv, ft, a]"
  then have "[v, v, fv, ft, a] \<in> (\<lambda>r. map r fa_set_tuple) ` set (rows (fa_table exper))"
    by (simp add: isin_def FullFARHierarchy_init_fields(1) [OF init] projected_rows_def)
  then obtain r where r: "r \<in> set (rows (fa_table exper))"
    and eq: "map r fa_set_tuple = [v, v, fv, ft, a]"
    by (metis (no_types, lifting) imageE)
  from eq have "r (TableCol_value Verify_User) = v" and "r (TableCol_value Enroll_User) = v"
    by (simp_all add: fa_set_tuple_def)
  with impostor r show False by auto
qed

lemma skip_for_a_eq:
  assumes "\<And>v fv ft a. \<not> isin (fa_set c) [v, v, fv, ft, a]"
  shows "skip_for_a c v t fv ft xs sample = far_for_a c v t fv ft xs sample"
  using assms by (induction xs arbitrary: sample) auto

lemma skip_for_ft_eq:
  assumes "\<And>v fv ft a. \<not> isin (fa_set c) [v, v, fv, ft, a]"
  shows "skip_for_ft c v t fv xs st = far_for_ft c v t fv xs st"
proof (induction xs arbitrary: st)
  case Nil
  show ?case by simp
next
  case (Cons x xs)
  then show ?case
    by (cases st) (simp add: skip_for_a_eq [OF assms] split: prod.splits)
qed

lemma skip_for_fv_eq:
  assumes "\<And>v fv ft a. \<not> isin (fa_set c) [v, v, fv, ft, a]"
  shows "skip_for_fv c v t xs st = far_for_fv c v t xs st"
proof (induction xs arbitrary: st)
  case Nil
  show ?case by simp
next
  case (Cons x xs)
  then show ?case
    by (cases st) (simp add: skip_for_ft_eq [OF assms] split: prod.splits)
qed

lemma skip_for_t_eq:
  assumes "\<And>v fv ft a. \<not> isin (fa_set c) [v, v, fv, ft, a]"
  shows "skip_for_t c v xs st = far_for_t c v xs st"
proof (induction xs arbitrary: st)
  case Nil
  show ?case by simp
next
  case (Cons x xs)
  then show ?case
    by (cases st) (simp add: skip_for_fv_eq [OF assms] split: prod.splits)
qed

lemma skip_for_v_eq:
  assumes "\<And>v fv ft a. \<not> isin (fa_set c) [v, v, fv, ft, a]"
  shows "skip_for_v c xs st = far_for_v c xs st"
proof (induction xs arbitrary: st)
  case Nil
  show ?case by simp
next
  case (Cons x xs)
  then show ?case
    by (cases st) (simp add: skip_for_t_eq [OF assms] split: prod.splits)
qed

lemma skip_self_match_sample_eq:
  assumes "\<And>v fv ft a. \<not> isin (fa_set c) [v, v, fv, ft, a]"
  shows "skip_self_match_sample c g = FullFARHierarchy_sample c g"
  by (simp add: skip_self_match_sample_def FullFARHierarchy_sample_def skip_for_v_eq [OF assms])

lemma singleton_boot_sample: "boot_sample [x] g = ([x], advance g 1)"
  by (simp add: boot_sample_def drawn_indices_def)

lemma self_match_counted:
  "fst (FullFARHierarchy_sample self_match_hierarchy g) = 1"
  "fst (skip_self_match_sample self_match_hierarchy g) = 0"
  by (simp_all add: FullFARHierarchy_sample_def skip_self_match_sample_def self_match_hierarchy_def
      singleton_boot_sample trie_isin_def trie_counts_def isin_def np_sum_def)

lemma sample_frames:
  "snd (snd (FARFlat_sample f g)) = f"
  "snd (snd (FullFARHierarchy_sample h g)) = h"
  "snd (snd (FullFRRHierarchy_sample h g)) = h"
  by (simp_all add: FARFlat_sample_def FullFARHierarchy_sample_def FullFRRHierarchy_sample_def
      split: prod.splits)

lemma sample_calls_frame:
  assumes "\<And>self g. snd (snd (smp self g)) = self"
  shows "snd (sample_calls smp self gs) = self"
proof (induction gs arbitrary: self)
  case Nil
  show ?case by simp
next
  case (Cons g gs)
  obtain n g1 self1 where call: "smp self g = (n, g1, self1)"
    by (cases "smp self g")
  with assms [of self g] have "self1 = self" by simp
  with Cons.IH [of self] call show ?case
    by (simp add: case_prod_beta)
qed

lemma scenario_flat_init: "FARFlat_init scenario_experiment = Inr scenario_flat"
  by (simp add: FARFlat_init_def scenario_experiment_def scenario_far_decisions_def
      scenario_flat_def has_columns_def DECISION_TABLE_COLS_def decision_row_def Let_def)

lemma scenario_far_list_nth:
  "i < 6 \<Longrightarrow> [False, False, True, False, False, False] ! i \<longleftrightarrow> i = 2"
proof -
  assume "i < 6"
  then consider "i = 0" | "i = 1" | "i = 2" | "i = 3" | "i = 4" | "i = 5"
    by linarith
  then show ?thesis by cases simp_all
qed

lemma scenario_flat_sample:
  "fst (FARFlat_sample scenario_flat g) = int (length (filter (\<lambda>i. i = 2) (drawn_indices g 6)))"
proof -
  have "filter (\<lambda>i. [False, False, True, False, False, False] ! i) (drawn_indices g 6) =
        filter (\<lambda>i. i = 2) (drawn_indices g 6)"
    by (rule filter_cong) (auto dest: drawn_indices_bound simp: scenario_far_list_nth)
  moreover have len: "length (far_list scenario_flat) = 6"
    by (simp add: scenario_flat_def)
  have "fst (boot_sample (far_list scenario_flat) g) =
        map (\<lambda>i. far_list scenario_flat ! i) (drawn_indices g 6)"
    by (simp only: boot_sample_def len fst_conv)
  then have "fst (boot_sample (far_list scenario_flat) g) =
        map (\<lambda>i. [False, False, True, False, False, False] ! i) (drawn_indices g 6)"
    by (simp add: scenario_flat_def)
  ultimately show ?thesis
    by (simp add: FARFlat_sample_def np_sum_def filter_map comp_def case_prod_beta)
qed

lemma far_skip_steps:
  "\<not> trie_isin (fa_trie c) [v] \<Longrightarrow> far_for_v c (v # rest) st = far_for_v c rest st"
  "\<not> trie_isin (fa_trie c) [v, t] \<Longrightarrow> far_for_t c v (t # rest) st = far_for_t c v rest st"
  "\<not> trie_isin (fa_trie c) [v, t, fv] \<Longrightarrow>
     far_for_fv c v t (fv # rest) st = far_for_fv c v t rest st"
  "\<not> trie_isin (fa_trie c) [v, t, fv, ft] \<Longrightarrow>
     far_for_ft c v t fv (ft # rest) st = far_for_ft c v t fv rest st"
  by (cases st; simp)+

lemma far_hierarchy_draws_tuples:
  assumes "q \<in> set (snd (far_hierarchy_draws c g))"
  shows "\<exists>v t fv ft a. q = [v, t, fv, ft, a] \<and>
           v \<in> set (users_list c) \<and> t \<in> set (users_list c) \<and> fv \<in> set (fingers_list c) \<and>
           ft \<in> set (fingers_list c) \<and> a \<in> set (samples_list c) \<and>
           trie_isin (fa_trie c) [v] \<and> trie_isin (fa_trie c) [v, t] \<and>
           trie_isin (fa_trie c) [v, t, fv] \<and> trie_isin (fa_trie c) [v, t, fv, ft]"
  using far_hierarchy_draws_admissible [OF assms] by (rule admissible_five)

lemma FullFARHierarchy_init_queries:
  assumes "FullFARHierarchy_init exper = Inr c"
  shows "isin (fa_set c) q \<longleftrightarrow> q \<in> set (projected_rows (fa_table exper) fa_set_tuple)"
    and "trie_isin (fa_trie c) p \<longleftrightarrow>
         (\<exists>r \<in> set (projected_rows (fa_table exper) fa_set_tuple). take (length p) r = p)"
  by (simp_all add: isin_def trie_isin_iff FullFARHierarchy_init_fields [OF assms])

text \<open>
  C1. One replicate of the full FAR hierarchy. The five nested loops of \<^verbatim>\<open>_sample\<close>
  compute what the specification describes: a full-size resample with replacement at
  each of the five levels (verify user, template user, verify finger, enroll finger,
  verify sample), a lookup of the partial tuple in the prefix index at each of the
  first four levels, which on failure skips the candidate without drawing anything
  below it, and at depth 5 a lookup of the 5-tuple in the membership index. The count
  returned is the number of drawn 5-tuples that are in the membership index, every
  drawn 5-tuple takes its components from the axis lists and has its four proper
  prefixes in the prefix index, and for a cache built by \<^verbatim>\<open>_init\<close> the two indices
  answer for the rows of \<^verbatim>\<open>exp.fa_table()\<close> projected onto the five columns. How the
  draws are distributed is the random source's affair: the statement holds for every
  generator.
\<close>

theorem C1_full_far_hierarchy:
  "FullFARHierarchy_sample c g =
     (int (length (filter (isin (fa_set c)) (snd (far_hierarchy_draws c g)))),
      fst (far_hierarchy_draws c g), c) \<and>
   (\<forall>q \<in> set (snd (far_hierarchy_draws c g)).
      \<exists>v t fv ft a. q = [v, t, fv, ft, a] \<and>
        v \<in> set (users_list c) \<and> t \<in> set (users_list c) \<and> fv \<in> set (fingers_list c) \<and>
        ft \<in> set (fingers_list c) \<and> a \<in> set (samples_list c) \<and>
        trie_isin (fa_trie c) [v] \<and> trie_isin (fa_trie c) [v, t] \<and>
        trie_isin (fa_trie c) [v, t, fv] \<and> trie_isin (fa_trie c) [v, t, fv, ft]) \<and>
   (\<forall>axis g1. length (fst (boot_sample (axis :: cell list) g1)) = length axis \<and>
      set (fst (boot_sample axis g1)) \<subseteq> set axis) \<and>
   (\<not> trie_isin (fa_trie c) [v] \<longrightarrow> far_for_v c (v # rest) st = far_for_v c rest st) \<and>
   (\<not> trie_isin (fa_trie c) [v, t] \<longrightarrow> far_for_t c v (t # rest) st = far_for_t c v rest st) \<and>
   (\<not> trie_isin (fa_trie c) [v, t, fv] \<longrightarrow>
      far_for_fv c v t (fv # rest) st = far_for_fv c v t rest st) \<and>
   (\<not> trie_isin (fa_trie c) [v, t, fv, ft] \<longrightarrow>
      far_for_ft c v t fv (ft # rest) st = far_for_ft c v t fv rest st) \<and>
   (FullFARHierarchy_init exper = Inr c \<longrightarrow>
      (\<forall>q. isin (fa_set c) q \<longleftrightarrow> q \<in> set (projected_rows (fa_table exper) fa_set_tuple)) \<and>
      (\<forall>p. trie_isin (fa_trie c) p \<longleftrightarrow>
         (\<exists>r \<in> set (projected_rows (fa_table exper) fa_set_tuple). take (length p) r = p)))"
proof (intro conjI)
  show "FullFARHierarchy_sample c g =
     (int (length (filter (isin (fa_set c)) (snd (far_hierarchy_draws c g)))),
      fst (far_hierarchy_draws c g), c)"
    by (rule FullFARHierarchy_sample_draws)
  show "\<forall>q \<in> set (snd (far_hierarchy_draws c g)).
      \<exists>v t fv ft a. q = [v, t, fv, ft, a] \<and>
        v \<in> set (users_list c) \<and> t \<in> set (users_list c) \<and> fv \<in> set (fingers_list c) \<and>
        ft \<in> set (fingers_list c) \<and> a \<in> set (samples_list c) \<and>
        trie_isin (fa_trie c) [v] \<and> trie_isin (fa_trie c) [v, t] \<and>
        trie_isin (fa_trie c) [v, t, fv] \<and> trie_isin (fa_trie c) [v, t, fv, ft]"
    using far_hierarchy_draws_tuples by blast
  show "\<forall>axis g1. length (fst (boot_sample (axis :: cell list) g1)) = length axis \<and>
      set (fst (boot_sample axis g1)) \<subseteq> set axis"
    by (simp add: boot_sample_length boot_sample_subset)
  show "\<not> trie_isin (fa_trie c) [v] \<longrightarrow> far_for_v c (v # rest) st = far_for_v c rest st"
    by (simp add: far_skip_steps)
  show "\<not> trie_isin (fa_trie c) [v, t] \<longrightarrow> far_for_t c v (t # rest) st = far_for_t c v rest st"
    by (simp add: far_skip_steps)
  show "\<not> trie_isin (fa_trie c) [v, t, fv] \<longrightarrow>
      far_for_fv c v t (fv # rest) st = far_for_fv c v t rest st"
    by (simp add: far_skip_steps)
  show "\<not> trie_isin (fa_trie c) [v, t, fv, ft] \<longrightarrow>
      far_for_ft c v t fv (ft # rest) st = far_for_ft c v t fv rest st"
    by (simp add: far_skip_steps)
  show "FullFARHierarchy_init exper = Inr c \<longrightarrow>
      (\<forall>q. isin (fa_set c) q \<longleftrightarrow> q \<in> set (projected_rows (fa_table exper) fa_set_tuple)) \<and>
      (\<forall>p. trie_isin (fa_trie c) p \<longleftrightarrow>
         (\<exists>r \<in> set (projected_rows (fa_table exper) fa_set_tuple). take (length p) r = p))"
    using FullFARHierarchy_init_queries by blast
qed

lemma scenario_hierarchy_init: "FullFARHierarchy_init scenario_experiment = Inr scenario_hierarchy"
  by (simp add: FullFARHierarchy_init_def scenario_experiment_def scenario_fa_table_def
      scenario_hierarchy_def has_columns_def DECISION_TABLE_COLS_def decision_row_def Let_def
      fa_set_tuple_def DataFrameSetAccess_init_def DataFrameCountTrieAccess_init_def
      getitem_cols_def np_array_def)

lemma scenario_draws:
  "snd (far_hierarchy_draws scenario_hierarchy counting_rng) =
     [[IntCell 10002, IntCell 10001, IntCell 1, IntCell 1, IntCell 0],
      [IntCell 10002, IntCell 10001, IntCell 1, IntCell 1, IntCell 1],
      [IntCell 10002, IntCell 10001, IntCell 1, IntCell 1, IntCell 2]]"
  by code_simp

theorem C1_full_far_hierarchy_witness:
  "FullFARHierarchy_init scenario_experiment = Inr scenario_hierarchy \<and>
   snd (far_hierarchy_draws scenario_hierarchy counting_rng) =
     [[IntCell 10002, IntCell 10001, IntCell 1, IntCell 1, IntCell 0],
      [IntCell 10002, IntCell 10001, IntCell 1, IntCell 1, IntCell 1],
      [IntCell 10002, IntCell 10001, IntCell 1, IntCell 1, IntCell 2]] \<and>
   fst (FullFARHierarchy_sample scenario_hierarchy counting_rng) = 1"
proof -
  from C1_full_far_hierarchy [of scenario_hierarchy counting_rng]
  have "fst (FullFARHierarchy_sample scenario_hierarchy counting_rng) =
        int (length (filter (isin (fa_set scenario_hierarchy))
               (snd (far_hierarchy_draws scenario_hierarchy counting_rng))))"
    by simp
  also have "\<dots> = 1"
    by (simp add: scenario_draws) (simp add: scenario_hierarchy_def isin_def)
  finally show ?thesis
    by (simp add: scenario_hierarchy_init scenario_draws)
qed

text \<open>
  C4. When every row of the table behind the FAR membership index is an impostor
  attempt (enroll user different from verify user), no 5-tuple whose verify user is its
  template user is in the index, so every such drawn tuple queries as absent and adds
  nothing, and the sampler returns what the sampler that leaves those tuples unqueried
  returns. The sampler itself has no filter for them: on a table that breaks the
  precondition a self-match is drawn, queried and counted, and the other sampler
  differs.
\<close>

theorem C4_self_match_not_present:
  assumes "FullFARHierarchy_init exper = Inr c"
    and "\<forall>r \<in> set (rows (fa_table exper)).
           r (TableCol_value Enroll_User) \<noteq> r (TableCol_value Verify_User)"
  shows "(\<forall>v fv ft a. \<not> isin (fa_set c) [v, v, fv, ft, a]) \<and>
         (\<forall>g. \<forall>q \<in> set (snd (far_hierarchy_draws c g)). q ! 0 = q ! 1 \<longrightarrow> \<not> isin (fa_set c) q) \<and>
         (\<forall>g. skip_self_match_sample c g = FullFARHierarchy_sample c g) \<and>
         fst (FullFARHierarchy_sample self_match_hierarchy g0) = 1 \<and>
         fst (skip_self_match_sample self_match_hierarchy g0) = 0"
proof -
  have absent: "\<not> isin (fa_set c) [v, v, fv, ft, a]" for v fv ft a
    using assms by (rule no_self_match_in_index)
  have "\<not> isin (fa_set c) q"
    if "q \<in> set (snd (far_hierarchy_draws c g))" and "q ! 0 = q ! 1" for g q
  proof -
    from far_hierarchy_draws_tuples [OF that(1)]
    obtain v t fv ft a where "q = [v, t, fv, ft, a]" by blast
    with that(2) absent show ?thesis by simp
  qed
  with absent skip_self_match_sample_eq [of c] self_match_counted [of g0]
  show ?thesis by blast
qed

theorem C4_self_match_not_present_witness:
  "skip_self_match_sample scenario_hierarchy counting_rng =
     FullFARHierarchy_sample scenario_hierarchy counting_rng \<and>
   \<not> isin (fa_set scenario_hierarchy)
       [IntCell 10002, IntCell 10002, IntCell 1, IntCell 1, IntCell 2]"
proof -
  have "\<forall>r \<in> set (rows (fa_table scenario_experiment)).
           r (TableCol_value Enroll_User) \<noteq> r (TableCol_value Verify_User)"
    by (simp add: scenario_experiment_def scenario_fa_table_def decision_row_def)
  from C4_self_match_not_present [OF scenario_hierarchy_init this]
  show ?thesis by blast
qed

lemma flat_single_accept:
  assumes "j < length (far_list c)" and "far_list c ! j"
    and "\<forall>i < length (far_list c). i \<noteq> j \<longrightarrow> \<not> far_list c ! i"
  shows "fst (FARFlat_sample c g) =
         int (length (filter (\<lambda>i. i = j) (drawn_indices g (length (far_list c)))))"
proof -
  have "filter (\<lambda>i. far_list c ! i) (drawn_indices g (length (far_list c))) =
        filter (\<lambda>i. i = j) (drawn_indices g (length (far_list c)))"
    using assms by (intro filter_cong refl) (auto dest: drawn_indices_bound)
  then show ?thesis
    by (simp add: FARFlat_sample_def boot_sample_def np_sum_def filter_map comp_def
        case_prod_beta)
qed

text \<open>
  C6. One replicate of the flat FAR strategy is the number of true outcomes in a single
  full-size resample with replacement of the per-row outcome array, which \<^verbatim>\<open>_init\<close>
  computes as "decision is ACCEPT" for each row. In the scenario table (two users, one
  finger, three samples, the only ACCEPT in the third row) the replicate is the number
  of draws that hit the third row: a random source that draws it \<open>k\<close> times gives \<open>k\<close>.
  The same holds of every outcome array with a single true entry, wherever it stands.
\<close>

theorem C6_flat_far:
  "FARFlat_sample c g =
     (int (length (filter (\<lambda>b. b) (fst (boot_sample (far_list c) g)))),
      snd (boot_sample (far_list c) g), c) \<and>
   length (fst (boot_sample (far_list c) g)) = length (far_list c) \<and>
   set (fst (boot_sample (far_list c) g)) \<subseteq> set (far_list c) \<and>
   (FARFlat_init exper = Inr c \<longrightarrow>
      far_list c = map (\<lambda>r. r ''Decision'' = StrCell ''ACCEPT'') (rows (far_decisions exper))) \<and>
   FARFlat_init scenario_experiment = Inr scenario_flat \<and>
   fst (FARFlat_sample scenario_flat g) =
     int (length (filter (\<lambda>i. i = 2) (drawn_indices g 6))) \<and>
   (j < length (far_list c) \<and> far_list c ! j \<and>
    (\<forall>i < length (far_list c). i \<noteq> j \<longrightarrow> \<not> far_list c ! i) \<longrightarrow>
      fst (FARFlat_sample c g) =
        int (length (filter (\<lambda>i. i = j) (drawn_indices g (length (far_list c))))))"
proof -
  have "FARFlat_sample c g =
     (int (length (filter (\<lambda>b. b) (fst (boot_sample (far_list c) g)))),
      snd (boot_sample (far_list c) g), c)"
    by (simp add: FARFlat_sample_def np_sum_def case_prod_beta)
  moreover have "FARFlat_init exper = Inr c \<longrightarrow>
      far_list c = map (\<lambda>r. r ''Decision'' = StrCell ''ACCEPT'') (rows (far_decisions exper))"
    by (auto simp: FARFlat_init_def Let_def split: if_splits)
  ultimately show ?thesis
    using boot_sample_length [of "far_list c" g] boot_sample_subset [of "far_list c" g]
      scenario_flat_init scenario_flat_sample [of g] flat_single_accept [of j c g]
    by blast
qed

theorem C6_flat_far_witness:
  "fst (FARFlat_sample scenario_flat counting_rng) = 1 \<and>
   fst (FARFlat_sample scenario_flat accept_rng) = 6"
proof -
  have "drawn_indices counting_rng 6 = [0, 1, 2, 3, 4, 5]"
    and "drawn_indices accept_rng 6 = [2, 2, 2, 2, 2, 2]"
    by code_simp+
  moreover from C6_flat_far [of scenario_flat counting_rng]
  have "fst (FARFlat_sample scenario_flat counting_rng) =
          int (length (filter (\<lambda>i. i = 2) (drawn_indices counting_rng 6)))"
    by blast
  moreover from C6_flat_far [of scenario_flat accept_rng]
  have "fst (FARFlat_sample scenario_flat accept_rng) =
          int (length (filter (\<lambda>i. i = 2) (drawn_indices accept_rng 6)))"
    by blast
  ultimately show ?thesis by simp
qed

text \<open>
  C8. \<^verbatim>\<open>_sample\<close> of each of the three strategies leaves the object as it found it:
  after one call, and after any sequence of calls with any generators, the outcome
  array, the membership index, the prefix index and the axis lists are what they were.
\<close>

theorem C8_sample_keeps_cache:
  "snd (sample_calls FARFlat_sample f gs) = f \<and>
   snd (sample_calls FullFARHierarchy_sample h gs) = h \<and>
   snd (sample_calls FullFRRHierarchy_sample h gs) = h \<and>
   snd (snd (FARFlat_sample f g)) = f \<and>
   snd (snd (FullFARHierarchy_sample h g)) = h \<and>
   snd (snd (FullFRRHierarchy_sample h g)) = h"
  by (simp add: sample_calls_frame sample_frames)

theorem C8_sample_keeps_cache_witness:
  "snd (sample_calls FARFlat_sample scenario_flat [counting_rng, accept_rng]) = scenario_flat \<and>
   snd (sample_calls FullFARHierarchy_sample scenario_hierarchy [counting_rng, accept_rng]) =
     scenario_hierarchy \<and>
   snd (sample_calls FullFRRHierarchy_sample scenario_hierarchy [counting_rng, accept_rng]) =
     scenario_hierarchy"
  using C8_sample_keeps_cache [of scenario_flat "[counting_rng, accept_rng]" scenario_hierarchy]
  by simp

subsection \<open>Validation\<close>

lemma check_frame: "snd (check e) = e"
  by (simp add: check_def)

lemma check_success_iff:
  assumes "list_all valid_table (tables_of e)"
  shows "fst (check e) = Inr () \<longleftrightarrow>
           far_rows_ok e \<and> frr_rows_ok e \<and> \<not> list_ex partial_groups (tables_of e) \<and>
           \<not> group_conflict (concat (map group_pairs (tables_of e)))"
proof -
  from assms have "list_ex (\<lambda>t. \<not> valid_table t \<or> partial_groups t) (tables_of e) \<longleftrightarrow>
      list_ex partial_groups (tables_of e)"
    by (auto simp: list_all_iff list_ex_iff)
  then show ?thesis
    by (auto simp: check_def)
qed

lemma check_errors:
  assumes "list_all valid_table (tables_of e)"
  shows "fst (check e) = Inl SchemaError \<longrightarrow> list_ex partial_groups (tables_of e)"
    and "fst (check e) = Inl SemanticError \<longrightarrow> \<not> far_rows_ok e \<or> \<not> frr_rows_ok e"
    and "fst (check e) = Inl GroupConflictError \<longrightarrow>
           group_conflict (concat (map group_pairs (tables_of e)))"
proof -
  from assms have eq: "list_ex (\<lambda>t. \<not> valid_table t \<or> partial_groups t) (tables_of e) \<longleftrightarrow>
      list_ex partial_groups (tables_of e)"
    by (auto simp: list_all_iff list_ex_iff)
  show "fst (check e) = Inl SchemaError \<longrightarrow> list_ex partial_groups (tables_of e)"
    using eq by (auto simp: check_def split: if_splits)
  show "fst (check e) = Inl SemanticError \<longrightarrow> \<not> far_rows_ok e \<or> \<not> frr_rows_ok e"
    by (auto simp: check_def split: if_splits)
  show "fst (check e) = Inl GroupConflictError \<longrightarrow>
           group_conflict (concat (map group_pairs (tables_of e)))"
    by (auto simp: check_def split: if_splits)
qed

text \<open>
  C5, as the specification has it. For all valid decision tables, \<^verbatim>\<open>check()\<close> succeeds
  if and only if every FAR row is an impostor attempt, every FRR row is a genuine
  attempt, each table has both group columns or neither, and the group columns give no
  user two different groups. A schema error is raised only when a table has one group
  column without the other, a semantic error only when a row is in the wrong table, a
  group-conflict error only when some user has two groups; the experiment is left as
  it was.
\<close>

theorem C5_check:
  assumes "list_all valid_table (tables_of e)"
  shows "(fst (check e) = Inr () \<longleftrightarrow>
            far_rows_ok e \<and> frr_rows_ok e \<and> \<not> list_ex partial_groups (tables_of e) \<and>
            \<not> group_conflict (concat (map group_pairs (tables_of e)))) \<and>
         (fst (check e) = Inl SchemaError \<longrightarrow> list_ex partial_groups (tables_of e)) \<and>
         (fst (check e) = Inl SemanticError \<longrightarrow> \<not> far_rows_ok e \<or> \<not> frr_rows_ok e) \<and>
         (fst (check e) = Inl GroupConflictError \<longrightarrow>
            group_conflict (concat (map group_pairs (tables_of e)))) \<and>
         snd (check e) = e"
  using check_success_iff [OF assms] check_errors [OF assms] check_frame [of e]
  by blast

lemma test_tables_valid:
  "list_all valid_table (tables_of correct_with_groups)"
  "list_all valid_table (tables_of conflicting_groups)"
  by (simp_all add: tables_of_def correct_with_groups_def conflicting_groups_def valid_table_def
      has_columns_def FAR_DATAFRAME_def FRR_DATAFRAME_def FRR_OTHER_GROUP_def
      DECISION_TABLE_COLS_def DECISION_TABLE_GROUP_COLS_def)

lemma test_tables_rows:
  "far_rows_ok correct_with_groups" "frr_rows_ok correct_with_groups"
  "far_rows_ok conflicting_groups" "frr_rows_ok conflicting_groups"
  by (simp_all add: far_rows_ok_def frr_rows_ok_def correct_with_groups_def
      conflicting_groups_def FAR_DATAFRAME_def FRR_DATAFRAME_def FRR_OTHER_GROUP_def
      impostor_attempt_def genuine_attempt_def grouped_row_def decision_row_def)

lemma test_tables_groups:
  "\<not> list_ex partial_groups (tables_of correct_with_groups)"
  "\<not> list_ex partial_groups (tables_of conflicting_groups)"
  by (simp_all add: tables_of_def correct_with_groups_def conflicting_groups_def
      partial_groups_def FAR_DATAFRAME_def FRR_DATAFRAME_def FRR_OTHER_GROUP_def
      DECISION_TABLE_COLS_def DECISION_TABLE_GROUP_COLS_def)

lemma test_tables_conflict:
  "\<not> group_conflict (concat (map group_pairs (tables_of correct_with_groups)))"
  "group_conflict (concat (map group_pairs (tables_of conflicting_groups)))"
  by (simp_all add: tables_of_def correct_with_groups_def conflicting_groups_def
      group_conflict_def group_pairs_def FAR_DATAFRAME_def FRR_DATAFRAME_def FRR_OTHER_GROUP_def
      DECISION_TABLE_COLS_def DECISION_TABLE_GROUP_COLS_def grouped_row_def decision_row_def)

theorem C5_check_witness:
  "fst (check correct_with_groups) = Inr () \<and> snd (check correct_with_groups) = correct_with_groups"
  using C5_check [OF test_tables_valid(1)] test_tables_rows(1,2) test_tables_groups(1)
    test_tables_conflict(1)
  by blast

text \<open>
  The claim as written, with success equivalent to the three conditions on rows and
  on the presence of group columns, fails on the test's FAR table together with an FRR
  table that moves user 10001 to group B: the three conditions hold and the check
  raises the group-conflict error.
\<close>

theorem C5_group_conflict_counterexample:
  "list_all valid_table (tables_of conflicting_groups) \<and>
   far_rows_ok conflicting_groups \<and> frr_rows_ok conflicting_groups \<and>
   \<not> list_ex partial_groups (tables_of conflicting_groups) \<and>
   fst (check conflicting_groups) = Inl GroupConflictError"
proof -
  have "fst (check conflicting_groups) = Inl GroupConflictError"
    using test_tables_valid(2) test_tables_rows(3,4) test_tables_groups(2) test_tables_conflict(2)
    by (auto simp: check_def list_all_iff list_ex_iff)
  then show ?thesis
    using test_tables_valid(2) test_tables_rows(3,4) test_tables_groups(2) by blast
qed

subsection \<open>The runner\<close>

lemma run_multi_process_unshared:
  assumes "\<not> USE_GLOBAL_SHARING b" and "1 \<le> (if k = 0 then int (cpu_count w) else k)"
  shows "fst (run_multi_process seeded b n k w) =
         Inr (map (\<lambda>i. fst (p_sample b (cache b) (seeded i))) [0..<nat n])"
  using assms
  by (simp add: run_multi_process_def Let_def case_prod_beta pool_map_sample_def comp_def)

lemma run_some:
  "fst (run seeded b n (Some k) w) =
     (case fst (run_multi_process seeded b n k w) of
        Inl e \<Rightarrow> Inl e | Inr boot_counts \<Rightarrow> Inr (BootstrapResults_init boot_counts))"
  by (simp add: run_def split: prod.splits sum.splits)

text \<open>
  C7. With \<^verbatim>\<open>USE_GLOBAL_SHARING\<close> off and a valid number of processes, the parallel run
  gives replicate \<open>i\<close>, for every \<open>i\<close> below \<^verbatim>\<open>num_samples\<close>, the generator seeded with
  \<open>i\<close>, built before the replicates are dispatched, and returns the counts in that
  order. So two runs with the same cache, the same \<^verbatim>\<open>_sample\<close> and the same number of
  replicates return the same sequence, whatever the clock, the entropy, the processor
  count, the number of processes and the other attributes of the two objects are.
  \<^verbatim>\<open>_sample\<close> is one that leaves the object as it found it, as those of the three
  strategies do.
\<close>

theorem C7_per_replicate_reproducible:
  assumes "\<not> USE_GLOBAL_SHARING b" and "\<not> USE_GLOBAL_SHARING b'"
    and "cache b' = cache b" and "p_sample b' = p_sample b"
    and "1 \<le> (if k = 0 then int (cpu_count w) else k)"
    and "1 \<le> (if k' = 0 then int (cpu_count w') else k')"
    and "\<forall>c g. snd (snd (p_sample b c g)) = c"
  shows "fst (run_multi_process seeded b n k w) =
           Inr (map (\<lambda>i. fst (p_sample b (cache b) (seeded i))) [0..<nat n]) \<and>
         fst (run seeded b n (Some k) w) =
           Inr (BootstrapResults_init
                  (map (\<lambda>i. fst (p_sample b (cache b) (seeded i))) [0..<nat n])) \<and>
         fst (run seeded b' n (Some k') w') = fst (run seeded b n (Some k) w)"
proof -
  have one: "fst (run_multi_process seeded b n k w) =
      Inr (map (\<lambda>i. fst (p_sample b (cache b) (seeded i))) [0..<nat n])"
    using assms(1,5) by (rule run_multi_process_unshared)
  have two: "fst (run_multi_process seeded b' n k' w') =
      Inr (map (\<lambda>i. fst (p_sample b (cache b) (seeded i))) [0..<nat n])"
    using run_multi_process_unshared [OF assms(2,6), of seeded n] by (simp add: assms(3,4))
  show ?thesis
    by (simp add: run_some one two)
qed

lemma example_replicates:
  "map (\<lambda>i. fst (FARFlat_sample scenario_flat (example_seeded i))) [0..<nat 3] = [0, 1, 2]"
  by code_simp

theorem C7_per_replicate_reproducible_witness:
  "fst (run example_seeded unshared_object 3 (Some 2) example_world) =
     Inr (BootstrapResults_init [0, 1, 2]) \<and>
   fst (run example_seeded unshared_object 3 (Some 0) world_after_init) =
     fst (run example_seeded unshared_object 3 (Some 2) example_world)"
proof -
  have "\<not> USE_GLOBAL_SHARING unshared_object"
    and "1 \<le> (if (2 :: int) = 0 then int (cpu_count example_world) else 2)"
    and "1 \<le> (if (0 :: int) = 0 then int (cpu_count world_after_init) else 0)"
    by (simp_all add: unshared_object_def example_world_def world_after_init_def)
  moreover have "\<forall>c g. snd (snd (p_sample unshared_object c g)) = c"
    by (simp add: unshared_object_def scenario_object_def sample_frames)
  ultimately have "\<not> USE_GLOBAL_SHARING unshared_object"
    and "1 \<le> (if (2 :: int) = 0 then int (cpu_count example_world) else 2)"
    and "1 \<le> (if (0 :: int) = 0 then int (cpu_count world_after_init) else 0)"
    and "\<forall>c g. snd (snd (p_sample unshared_object c g)) = c"
    by blast+
  from C7_per_replicate_reproducible [OF this(1) this(1) refl refl this(2) this(3) this(4),
      of example_seeded 3]
  show ?thesis
    using example_replicates by (simp add: unshared_object_def scenario_object_def)
qed

lemma time_time_simps:
  "fst (time_time w) = clock w (ticks w)"
  "clock (snd (time_time w)) = clock w"
  "ticks (snd (time_time w)) = Suc (ticks w)"
  "created (snd (time_time w)) = created w"
  by (simp_all add: time_time_def)

lemma default_rng_simps:
  "clock (snd (default_rng w)) = clock w"
  "ticks (snd (default_rng w)) = ticks w"
  by (simp_all add: default_rng_def)

lemma run_single_times:
  assumes "run_single_process b n w = (counts, b', w')"
  shows "time_rng_start b' = clock w (ticks w) \<and>
         time_rng_end b' = clock w (ticks w + 1) \<and>
         time_samples_start b' = clock w (ticks w + 2) \<and>
         time_samples_end b' = clock w (ticks w + 3) \<and>
         time_pool_startup_start b' = time_pool_startup_start b \<and>
         time_pool_startup_end b' = time_pool_startup_end b \<and>
         time_init_start b' = time_init_start b \<and>
         time_init_end b' = time_init_end b"
proof -
  from assms have "b' = fst (snd (run_single_process b n w))" by simp
  then show ?thesis
    by (simp add: run_single_process_def Let_def case_prod_beta time_time_simps default_rng_simps
        numeral_eq_Suc)
qed

lemma run_multi_shared_times:
  assumes "USE_GLOBAL_SHARING b" and "run_multi_process seeded b n k w = (Inr counts, b', w')"
  shows "time_pool_startup_start b' = clock w (ticks w) \<and>
         time_pool_startup_end b' = clock w (ticks w + 1) \<and>
         time_samples_start b' = clock w (ticks w + 2) \<and>
         time_samples_end b' = clock w (ticks w + 3) \<and>
         time_rng_start b' = time_rng_start b \<and>
         time_rng_end b' = time_rng_end b \<and>
         time_init_start b' = time_init_start b \<and>
         time_init_end b' = time_init_end b"
proof -
  from assms(2) have ok: "\<not> (if k = 0 then int (cpu_count w) else k) < 1"
    using assms(1)
    by (auto simp: run_multi_process_def Let_def case_prod_beta split: if_splits)
  from assms(2) have "b' = fst (snd (run_multi_process seeded b n k w))" by simp
  with ok assms(1) show ?thesis
    by (simp add: run_multi_process_def Let_def case_prod_beta time_time_simps numeral_eq_Suc)
qed

lemma run_multi_unshared_times:
  assumes "\<not> USE_GLOBAL_SHARING b" and "run_multi_process seeded b n k w = (Inr counts, b', w')"
  shows "time_pool_startup_start b' = clock w (ticks w) \<and>
         time_pool_startup_end b' = clock w (ticks w + 1) \<and>
         time_rng_start b' = clock w (ticks w + 2) \<and>
         time_rng_end b' = clock w (ticks w + 3) \<and>
         time_samples_start b' = clock w (ticks w + 4) \<and>
         time_samples_end b' = clock w (ticks w + 5) \<and>
         time_init_start b' = time_init_start b \<and>
         time_init_end b' = time_init_end b"
proof -
  from assms(2) have ok: "\<not> (if k = 0 then int (cpu_count w) else k) < 1"
    using assms(1)
    by (auto simp: run_multi_process_def Let_def case_prod_beta split: if_splits)
  from assms(2) have "b' = fst (snd (run_multi_process seeded b n k w))" by simp
  with ok assms(1) show ?thesis
    by (simp add: run_multi_process_def Let_def case_prod_beta time_time_simps numeral_eq_Suc)
qed

lemma run_none:
  "run seeded b n None w = (res, b', w') \<Longrightarrow>
     \<exists>counts. run_single_process b n w = (counts, b', w')"
  by (auto simp: run_def split: prod.splits)

lemma run_some_ok:
  "run seeded b n (Some k) w = (Inr res, b', w') \<Longrightarrow>
     \<exists>counts. run_multi_process seeded b n k w = (Inr counts, b', w')"
  by (auto simp: run_def split: prod.splits sum.splits)

lemma Bootstrap_init_times:
  assumes "Bootstrap_init init_m smp sharing exper verbose w = (Inr b0, w0)"
  shows "time_init_start b0 = clock w (ticks w) \<and> time_init_end b0 = clock w (ticks w + 1) \<and>
         time_rng_start b0 = 0 \<and> time_rng_end b0 = 0 \<and>
         time_pool_startup_start b0 = 0 \<and> time_pool_startup_end b0 = 0 \<and>
         time_samples_start b0 = 0 \<and> time_samples_end b0 = 0"
  using assms
  by (auto simp: Bootstrap_init_def Let_def case_prod_beta time_time_simps split: sum.splits)


text \<open>
  C9, as the code has it. The two times of the cache initialization are set by the
  constructor, which sets the six others to 0.0; \<^verbatim>\<open>run()\<close> does not touch them. A
  sequential run sets the two times of the random-source initialization and the two of
  the sampling phase, in that order, and leaves those of the pool startup as they
  were. A parallel run under global sharing sets the times of the pool startup and of
  the sampling phase and leaves those of the random-source initialization as they
  were. A parallel run without global sharing sets the times of the pool startup, of
  the random-source initialization and of the sampling phase.
\<close>

theorem C9_timing_phases:
  "(run seeded b n None w = (res, b1, w1) \<longrightarrow>
      time_rng_start b1 = clock w (ticks w) \<and>
      time_rng_end b1 = clock w (ticks w + 1) \<and>
      time_samples_start b1 = clock w (ticks w + 2) \<and>
      time_samples_end b1 = clock w (ticks w + 3) \<and>
      time_pool_startup_start b1 = time_pool_startup_start b \<and>
      time_pool_startup_end b1 = time_pool_startup_end b \<and>
      time_init_start b1 = time_init_start b \<and>
      time_init_end b1 = time_init_end b) \<and>
   (USE_GLOBAL_SHARING b \<and> run seeded b n (Some k) w = (Inr res2, b2, w2) \<longrightarrow>
      time_pool_startup_start b2 = clock w (ticks w) \<and>
      time_pool_startup_end b2 = clock w (ticks w + 1) \<and>
      time_samples_start b2 = clock w (ticks w + 2) \<and>
      time_samples_end b2 = clock w (ticks w + 3) \<and>
      time_rng_start b2 = time_rng_start b \<and>
      time_rng_end b2 = time_rng_end b \<and>
      time_init_start b2 = time_init_start b \<and>
      time_init_end b2 = time_init_end b) \<and>
   (\<not> USE_GLOBAL_SHARING b \<and> run seeded b n (Some k) w = (Inr res3, b3, w3) \<longrightarrow>
      time_pool_startup_start b3 = clock w (ticks w) \<and>
      time_pool_startup_end b3 = clock w (ticks w + 1) \<and>
      time_rng_start b3 = clock w (ticks w + 2) \<and>
      time_rng_end b3 = clock w (ticks w + 3) \<and>
      time_samples_start b3 = clock w (ticks w + 4) \<and>
      time_samples_end b3 = clock w (ticks w + 5) \<and>
      time_init_start b3 = time_init_start b \<and>
      time_init_end b3 = time_init_end b) \<and>
   (Bootstrap_init init_m smp sharing exper verbose w = (Inr b0, w0) \<longrightarrow>
      time_init_start b0 = clock w (ticks w) \<and> time_init_end b0 = clock w (ticks w + 1) \<and>
      time_rng_start b0 = 0 \<and> time_rng_end b0 = 0 \<and>
      time_pool_startup_start b0 = 0 \<and> time_pool_startup_end b0 = 0 \<and>
      time_samples_start b0 = 0 \<and> time_samples_end b0 = 0)"
proof (intro conjI impI)
  assume "run seeded b n None w = (res, b1, w1)"
  then obtain counts where "run_single_process b n w = (counts, b1, w1)"
    using run_none by blast
  note single = run_single_times [OF this]
  from single show "time_rng_start b1 = clock w (ticks w)" by blast
  from single show "time_rng_end b1 = clock w (ticks w + 1)" by blast
  from single show "time_samples_start b1 = clock w (ticks w + 2)" by blast
  from single show "time_samples_end b1 = clock w (ticks w + 3)" by blast
  from single show "time_pool_startup_start b1 = time_pool_startup_start b" by blast
  from single show "time_pool_startup_end b1 = time_pool_startup_end b" by blast
  from single show "time_init_start b1 = time_init_start b" by blast
  from single show "time_init_end b1 = time_init_end b" by blast
next
  assume "USE_GLOBAL_SHARING b \<and> run seeded b n (Some k) w = (Inr res2, b2, w2)"
  then obtain counts where "USE_GLOBAL_SHARING b"
    and "run_multi_process seeded b n k w = (Inr counts, b2, w2)"
    using run_some_ok by blast
  note shared = run_multi_shared_times [OF this]
  from shared show "time_pool_startup_start b2 = clock w (ticks w)" by blast
  from shared show "time_pool_startup_end b2 = clock w (ticks w + 1)" by blast
  from shared show "time_samples_start b2 = clock w (ticks w + 2)" by blast
  from shared show "time_samples_end b2 = clock w (ticks w + 3)" by blast
  from shared show "time_rng_start b2 = time_rng_start b" by blast
  from shared show "time_rng_end b2 = time_rng_end b" by blast
  from shared show "time_init_start b2 = time_init_start b" by blast
  from shared show "time_init_end b2 = time_init_end b" by blast
next
  assume "\<not> USE_GLOBAL_SHARING b \<and> run seeded b n (Some k) w = (Inr res3, b3, w3)"
  then obtain counts where "\<not> USE_GLOBAL_SHARING b"
    and "run_multi_process seeded b n k w = (Inr counts, b3, w3)"
    using run_some_ok by blast
  note unshared = run_multi_unshared_times [OF this]
  from unshared show "time_pool_startup_start b3 = clock w (ticks w)" by blast
  from unshared show "time_pool_startup_end b3 = clock w (ticks w + 1)" by blast
  from unshared show "time_rng_start b3 = clock w (ticks w + 2)" by blast
  from unshared show "time_rng_end b3 = clock w (ticks w + 3)" by blast
  from unshared show "time_samples_start b3 = clock w (ticks w + 4)" by blast
  from unshared show "time_samples_end b3 = clock w (ticks w + 5)" by blast
  from unshared show "time_init_start b3 = time_init_start b" by blast
  from unshared show "time_init_end b3 = time_init_end b" by blast
next
  assume "Bootstrap_init init_m smp sharing exper verbose w = (Inr b0, w0)"
  note built = Bootstrap_init_times [OF this]
  from built show "time_init_start b0 = clock w (ticks w)" by blast
  from built show "time_init_end b0 = clock w (ticks w + 1)" by blast
  from built show "time_rng_start b0 = 0" by blast
  from built show "time_rng_end b0 = 0" by blast
  from built show "time_pool_startup_start b0 = 0" by blast
  from built show "time_pool_startup_end b0 = 0" by blast
  from built show "time_samples_start b0 = 0" by blast
  from built show "time_samples_end b0 = 0" by blast
qed

lemma scenario_object_built:
  "Bootstrap_init FARFlat_init FARFlat_sample True scenario_experiment False example_world =
     (Inr scenario_object, world_after_init)"
  by (simp add: Bootstrap_init_def scenario_flat_init time_time_def example_world_def
      world_after_init_def scenario_object_def example_clock_def)

lemma sequential_run_result:
  "fst (run example_seeded scenario_object 3 None world_after_init) =
     Inr (BootstrapResults_init [1, 1, 1])"
  by code_simp

lemma shared_run_result:
  "fst (run example_seeded scenario_object 3 (Some 2) world_after_init) =
     Inr (BootstrapResults_init [1, 1, 1])"
  by code_simp

theorem C9_timing_phases_witness:
  "time_rng_start (fst (snd (run example_seeded scenario_object 3 None world_after_init))) = 1002 \<and>
   time_samples_end (fst (snd (run example_seeded scenario_object 3 None world_after_init))) = 1005 \<and>
   time_pool_startup_start
     (fst (snd (run example_seeded scenario_object 3 (Some 2) world_after_init))) = 1002 \<and>
   time_samples_end
     (fst (snd (run example_seeded scenario_object 3 (Some 2) world_after_init))) = 1005 \<and>
   time_rng_start
     (fst (snd (run example_seeded unshared_object 3 (Some 2) world_after_init))) = 1004 \<and>
   time_samples_end
     (fst (snd (run example_seeded unshared_object 3 (Some 2) world_after_init))) = 1007"
proof -
  let ?w = world_after_init
  have clock: "clock ?w (ticks ?w) = 1002" "clock ?w (ticks ?w + 3) = 1005"
    "clock ?w (ticks ?w + 2) = 1004" "clock ?w (ticks ?w + 5) = 1007"
    by (simp_all add: world_after_init_def example_world_def example_clock_def)
  have sharing: "USE_GLOBAL_SHARING scenario_object" "\<not> USE_GLOBAL_SHARING unshared_object"
    by (simp_all add: scenario_object_def unshared_object_def)
  let ?seq = "run example_seeded scenario_object 3 None ?w"
  let ?par = "run example_seeded scenario_object 3 (Some 2) ?w"
  let ?uns = "run example_seeded unshared_object 3 (Some 2) ?w"
  have seq: "?seq = (fst ?seq, fst (snd ?seq), snd (snd ?seq))" by simp
  have par: "?par = (Inr (BootstrapResults_init [1, 1, 1]), fst (snd ?par), snd (snd ?par))"
    using shared_run_result by (metis prod.collapse)
  have "fst ?uns = Inr (BootstrapResults_init [0, 1, 2])"
    by code_simp
  then have uns: "?uns = (Inr (BootstrapResults_init [0, 1, 2]), fst (snd ?uns), snd (snd ?uns))"
    by (metis prod.collapse)
  from C9_timing_phases [of example_seeded scenario_object 3 ?w "fst ?seq" "fst (snd ?seq)"
      "snd (snd ?seq)" 2 "BootstrapResults_init [1, 1, 1]" "fst (snd ?par)" "snd (snd ?par)"]
    seq par sharing(1)
  have a: "time_rng_start (fst (snd ?seq)) = clock ?w (ticks ?w)"
    and b: "time_samples_end (fst (snd ?seq)) = clock ?w (ticks ?w + 3)"
    and c: "time_pool_startup_start (fst (snd ?par)) = clock ?w (ticks ?w)"
    and d: "time_samples_end (fst (snd ?par)) = clock ?w (ticks ?w + 3)"
    by blast+
  from C9_timing_phases [of example_seeded unshared_object 3 ?w _ _ _ 2 _ _ _
      "BootstrapResults_init [0, 1, 2]" "fst (snd ?uns)" "snd (snd ?uns)"]
    uns sharing(2)
  have e: "time_rng_start (fst (snd ?uns)) = clock ?w (ticks ?w + 2)"
    and f: "time_samples_end (fst (snd ?uns)) = clock ?w (ticks ?w + 5)"
    by blast+
  show ?thesis
    by (simp only: a b c d e f clock simp_thms)
qed

text \<open>
  The claim as written fails for two of the three ways to run: on an object fresh from
  its constructor, after a sequential run the times of the pool startup are still 0.0,
  and after a parallel run under global sharing those of the random-source
  initialization are still 0.0, while the clock of the example reads 1000 and more.
\<close>

theorem C9_unset_phase_counterexample:
  "Bootstrap_init FARFlat_init FARFlat_sample True scenario_experiment False example_world =
     (Inr scenario_object, world_after_init) \<and>
   fst (run example_seeded scenario_object 3 None world_after_init) =
     Inr (BootstrapResults_init [1, 1, 1]) \<and>
   time_pool_startup_start
     (fst (snd (run example_seeded scenario_object 3 None world_after_init))) = 0 \<and>
   time_pool_startup_end
     (fst (snd (run example_seeded scenario_object 3 None world_after_init))) = 0 \<and>
   fst (run example_seeded scenario_object 3 (Some 2) world_after_init) =
     Inr (BootstrapResults_init [1, 1, 1]) \<and>
   time_rng_start
     (fst (snd (run example_seeded scenario_object 3 (Some 2) world_after_init))) = 0 \<and>
   time_rng_end
     (fst (snd (run example_seeded scenario_object 3 (Some 2) world_after_init))) = 0"
proof -
  let ?w = world_after_init
  let ?seq = "run example_seeded scenario_object 3 None ?w"
  let ?par = "run example_seeded scenario_object 3 (Some 2) ?w"
  have "?seq = (fst ?seq, fst (snd ?seq), snd (snd ?seq))" by simp
  then obtain counts where "run_single_process scenario_object 3 ?w =
      (counts, fst (snd ?seq), snd (snd ?seq))"
    using run_none by blast
  from run_single_times [OF this]
  have seq: "time_pool_startup_start (fst (snd ?seq)) = 0"
    "time_pool_startup_end (fst (snd ?seq)) = 0"
    by (simp_all add: scenario_object_def)
  have "?par = (Inr (BootstrapResults_init [1, 1, 1]), fst (snd ?par), snd (snd ?par))"
    using shared_run_result by (metis prod.collapse)
  then obtain counts2 where "run_multi_process example_seeded scenario_object 3 2 ?w =
      (Inr counts2, fst (snd ?par), snd (snd ?par))"
    using run_some_ok by blast
  from run_multi_shared_times [OF _ this]
  have par: "time_rng_start (fst (snd ?par)) = 0" "time_rng_end (fst (snd ?par)) = 0"
    by (simp_all add: scenario_object_def)
  show ?thesis
    using scenario_object_built sequential_run_result shared_run_result seq par by blast
qed

end
